theory Spec2Isabelle
  imports Complex_Main "HOL-Library.Sublist"
begin

section \<open>Text helpers\<close>

text \<open>
  Python strings are modelled as \<open>string\<close>, one \<open>char\<close> per code point below 256.
  \<open>str.lower()\<close> maps \<open>A\<close>..\<open>Z\<close> and the upper-case letters of Latin-1 to the letter
  32 code points higher (bit 5 set) and leaves everything else alone.
\<close>

definition is_upper :: "char \<Rightarrow> bool" where
  "is_upper c =
     (let n = (of_char c :: nat)
      in (65 \<le> n \<and> n \<le> 90) \<or> (192 \<le> n \<and> n \<le> 222 \<and> n \<noteq> 215))"

fun set_bit5 :: "char \<Rightarrow> char" where
  "set_bit5 (Char b0 b1 b2 b3 b4 b5 b6 b7) = Char b0 b1 b2 b3 b4 True b6 b7"

definition lower_char :: "char \<Rightarrow> char" where
  "lower_char c = (if is_upper c then set_bit5 c else c)"

definition lower :: "string \<Rightarrow> string" where
  "lower s = map lower_char s"

text \<open>Python's \<open>p in s\<close> on strings: \<open>p\<close> occurs in \<open>s\<close> as a contiguous run.\<close>

definition contains :: "string \<Rightarrow> string \<Rightarrow> bool" where
  "contains p s = sublist p s"

text \<open>\<open>any(p in s for p in ps)\<close>.\<close>

definition any_in :: "string list \<Rightarrow> string \<Rightarrow> bool" where
  "any_in ps s = list_ex (\<lambda>p. contains p s) ps"

text \<open>
  \<open>\s\<close> of the regular expressions and the characters \<open>str.strip()\<close> removes:
  code points 9..13, 28..32, 133 and 160.
\<close>

definition is_space :: "char \<Rightarrow> bool" where
  "is_space c =
     (let n = (of_char c :: nat)
      in (9 \<le> n \<and> n \<le> 13) \<or> (28 \<le> n \<and> n \<le> 32) \<or> n = 133 \<or> n = 160)"

definition strip :: "string \<Rightarrow> string" where
  "strip s = rev (dropWhile is_space (rev (dropWhile is_space s)))"

text \<open>\<open>re.sub(r"\s+", " ", text)\<close>: every maximal run of white space becomes one blank.\<close>

function collapse_ws :: "string \<Rightarrow> string" where
  "collapse_ws [] = []"
| "collapse_ws (c # cs) =
     (if is_space c then CHR '' '' # collapse_ws (dropWhile is_space cs)
      else c # collapse_ws cs)"
  by pat_completeness auto
termination
  by (relation "measure length") (auto simp: less_Suc_eq_le length_dropWhile_le)

text \<open>
  \<open>re.sub(r"http\S+", " ", text)\<close>: scanning from the left, \<open>http\<close> followed by at least
  one non-space character is replaced, together with the whole run of non-space
  characters after it, by one blank.
\<close>

function strip_urls :: "string \<Rightarrow> string" where
  "strip_urls [] = []"
| "strip_urls (c # cs) =
     (if prefix ''http'' (c # cs) \<and>
         (case drop 4 (c # cs) of [] \<Rightarrow> False | d # _ \<Rightarrow> \<not> is_space d)
      then CHR '' '' # strip_urls (dropWhile (\<lambda>d. \<not> is_space d) (drop 4 (c # cs)))
      else c # strip_urls cs)"
  by pat_completeness auto
termination
proof (relation "measure length")
  show "wf (measure (length :: string \<Rightarrow> nat))" by simp
next
  fix c :: char and cs :: string
  have "length (dropWhile (\<lambda>d. \<not> is_space d) (drop 4 (c # cs))) \<le> length (drop 4 (c # cs))"
    by (rule length_dropWhile_le)
  also have "\<dots> < length (c # cs)" by simp
  finally show "(dropWhile (\<lambda>d. \<not> is_space d) (drop 4 (c # cs)), c # cs) \<in> measure length"
    by simp
next
  fix c :: char and cs :: string
  show "(cs, c # cs) \<in> measure length" by simp
qed

definition clean_text :: "string \<Rightarrow> string" where
  "clean_text t = strip (strip_urls (collapse_ws t))"

definition combine_fields :: "string \<Rightarrow> string \<Rightarrow> string \<Rightarrow> string" where
  "combine_fields subject body sender =
     ''SUBJ: '' @ clean_text subject @ '' SENDER: '' @ clean_text sender @
     '' BODY: '' @ clean_text body"

section \<open>Hybrid decision layer (inbox_agent_gmail_ml_v2.py)\<close>

definition JOB_DOMAINS_INFER :: "string list" where
  "JOB_DOMAINS_INFER =
     [''indeed'', ''linkedin'', ''handshake'', ''joinhandshake'', ''workday'', ''myworkday'',
      ''greenhouse'', ''bamboohr'', ''icims'', ''smartrecruiters'', ''lever.co'', ''jazzhr'',
      ''monster'', ''careerbuilder'', ''workable'', ''eightfold'']"

definition STRONG_SUBJECT_INFER :: "string list" where
  "STRONG_SUBJECT_INFER =
     [''application received'', ''application submitted'', ''application update'',
      ''thank you for applying'', ''your application'', ''job application'',
      ''we received your application'', ''we have received your application'',
      ''interview invitation'', ''invitation to interview'', ''schedule your interview'',
      ''job offer'', ''offer letter'']"

definition STRONG_BODY_INFER :: "string list" where
  "STRONG_BODY_INFER =
     [''this email is to serve as confirmation that we are in receipt of your application'',
      ''confirmation that we are in receipt of your application'',
      ''we are in receipt of your application'',
      ''we have received your application'',
      ''your application has been received'',
      ''thank you for applying'',
      ''your application is currently being reviewed'',
      ''a dedicated member of our talent acquisition team will be in contact'',
      ''a member of our talent acquisition team will be in contact'',
      ''a recruiter will be in contact'',
      ''we regret to inform you'',
      ''we have decided not to move forward with your application'',
      ''schedule an interview'',
      ''interview invitation'',
      ''invitation to interview'']"

text \<open>
  The fields of an email are \<open>str\<close> on every path that builds a \<open>SimpleEmail\<close>
  (\<open>get_header\<close> and \<open>extract_body\<close> return strings), so the \<open>isinstance\<close> guards of
  \<open>has_strong_job_signal\<close> always take the string branch.
\<close>

definition has_strong_job_signal :: "string \<Rightarrow> string \<Rightarrow> string \<Rightarrow> bool" where
  "has_strong_job_signal subject body sender =
     (let subj = lower subject;
          txt = lower (subject @ '' [SEP] '' @ body);
          sender_lower = lower sender
      in if any_in JOB_DOMAINS_INFER sender_lower then True
         else if any_in STRONG_SUBJECT_INFER subj then True
         else if any_in STRONG_BODY_INFER txt then True
         else False)"

definition APPLICATION_CONFIRM_WORDS :: "string list" where
  "APPLICATION_CONFIRM_WORDS =
     [''application received'', ''thank you for applying'',
      ''we have received your application'', ''your application has been received'',
      ''this email is to serve as confirmation that we are in receipt of your application'',
      ''we are in receipt of your application'',
      ''your application is currently being reviewed'']"

definition INTERVIEW_WORDS :: "string list" where
  "INTERVIEW_WORDS =
     [''schedule an interview'', ''interview invitation'', ''invitation to interview'',
      ''virtual interview'', ''onsite interview'', ''phone interview'']"

definition REJECTION_WORDS :: "string list" where
  "REJECTION_WORDS =
     [''we regret to inform you'', ''not moving forward with your application'',
      ''we have decided not to move forward'', ''your application was not selected'',
      ''we will not be moving forward'']"

definition infer_job_status :: "string \<Rightarrow> string" where
  "infer_job_status txt =
     (let t = lower txt
      in if any_in APPLICATION_CONFIRM_WORDS t then ''APPLICATION_CONFIRMATION''
         else if any_in INTERVIEW_WORDS t then ''INTERVIEW_INVITE''
         else if any_in REJECTION_WORDS t then ''REJECTION''
         else ''OTHER_JOB_EMAIL'')"

definition applied_flag_from_status :: "string \<Rightarrow> nat" where
  "applied_flag_from_status status =
     (if status \<in> set [''APPLICATION_CONFIRMATION'', ''INTERVIEW_INVITE'', ''REJECTION'']
      then 1 else 0)"

section \<open>Training labels (auto_train_job_email_model.py)\<close>

definition NEGATIVE_DOMAINS :: "string list" where
  "NEGATIVE_DOMAINS =
     [''sofi'', ''bankofamerica'', ''bofa'', ''chase'', ''wellsfargo'', ''capitalone'',
      ''americanexpress'', ''amex'', ''starbucks'', ''ubereats'', ''doordash'', ''grubhub'',
      ''mcdonalds'', ''burgerking'', ''dominos'', ''netflix'', ''spotify'', ''apple.com'',
      ''appleid'', ''primevideo'', ''hulu'', ''disneyplus'', ''amazon'', ''amzn'']"

definition is_negative_sender :: "string \<Rightarrow> bool" where
  "is_negative_sender sender = (let s = lower sender in any_in NEGATIVE_DOMAINS s)"

section \<open>The email record and the inference loop\<close>

record SimpleEmail =
  email_id :: string
  date :: string
  sender :: string
  subject :: string
  body :: string

text \<open>
  One row of the master CSV. The \<open>company\<close> column (a regular expression over the
  sender) plays no part in any decision and is left out.
\<close>

record job_row =
  r_email_id :: string
  r_date :: string
  r_sender :: string
  r_subject :: string
  r_body :: string
  r_job_prob :: real
  r_job_status :: string
  r_applied :: nat

text \<open>
  The loop of \<open>process_and_update_csv\<close> over \<open>zip(emails, probas)\<close>: an email is
  skipped when it has no strong signal and its probability is below the threshold;
  otherwise its row is appended. Probabilities are modelled as reals (no NaN).
\<close>

definition skipped :: "real \<Rightarrow> SimpleEmail \<Rightarrow> real \<Rightarrow> bool" where
  "skipped prob_threshold e p_job =
     (let strong = has_strong_job_signal (subject e) (body e) (sender e)
      in (\<not> strong) \<and> p_job < prob_threshold)"

definition make_row :: "SimpleEmail \<Rightarrow> real \<Rightarrow> job_row" where
  "make_row e p_job =
     (let combined = clean_text (subject e) @ '' [SEP] '' @ clean_text (body e);
          status = infer_job_status combined;
          applied = applied_flag_from_status status
      in \<lparr>r_email_id = email_id e, r_date = date e, r_sender = sender e,
          r_subject = clean_text (subject e), r_body = clean_text (body e),
          r_job_prob = p_job, r_job_status = status, r_applied = applied\<rparr>)"

fun process_rows :: "real \<Rightarrow> (SimpleEmail \<times> real) list \<Rightarrow> job_row list" where
  "process_rows prob_threshold [] = []"
| "process_rows prob_threshold ((e, p_job) # rest) =
     (if skipped prob_threshold e p_job then process_rows prob_threshold rest
      else make_row e p_job # process_rows prob_threshold rest)"

text \<open>
  The category decision for one email, as the loop takes it: positive when a row is
  written for it.
\<close>

definition accepted :: "real \<Rightarrow> SimpleEmail \<Rightarrow> real \<Rightarrow> bool" where
  "accepted prob_threshold e p_job = (process_rows prob_threshold [(e, p_job)] \<noteq> [])"

text \<open>
  The phrases behind \<open>JOB_OPENING\<close> in the rule-based agent (inbox_agent_gmail.py,
  \<open>STRONG_SUBJECT\<close>); the hybrid agent above has no such list.
\<close>

definition STRONG_SUBJECT :: "string list" where
  "STRONG_SUBJECT =
     [''your application'', ''application received'', ''application update'',
      ''application submitted'', ''thank you for applying'', ''interview'',
      ''interview invitation'', ''next steps'', ''we are hiring'', ''we're hiring'',
      ''job opening'', ''job opportunity'', ''position'', ''role:'', ''now hiring'',
      ''job for you'']"

text \<open>
  The spec's reading of a precedence order, to compare \<open>infer_job_status\<close> with: an
  ordered list of (phrases, outcome) pairs, the first pair with a phrase in the text wins.
\<close>

definition first_match :: "(string list \<times> string) list \<Rightarrow> string \<Rightarrow> string \<Rightarrow> string" where
  "first_match rules t dflt =
     (case find (\<lambda>(ws, s). any_in ws t) rules of Some (ws, s) \<Rightarrow> s | None \<Rightarrow> dflt)"

definition status_rules :: "(string list \<times> string) list" where
  "status_rules =
     [(APPLICATION_CONFIRM_WORDS, ''APPLICATION_CONFIRMATION''),
      (INTERVIEW_WORDS, ''INTERVIEW_INVITE''),
      (REJECTION_WORDS, ''REJECTION'')]"

section \<open>Failures\<close>

text \<open>
  Every way a run stops early: \<open>sys.exit(1)\<close>, an exception of the mailbox API, a
  \<open>ValueError\<close> (a missing column, misaligned batches), Chroma's \<open>DuplicateIDError\<close>, and
  an exception of \<open>pd.read_csv\<close> other than \<open>EmptyDataError\<close>.
\<close>

datatype failure = SysExit1 | ApiError | ValueError | DuplicateIDError | ParserError

section \<open>Fetch stage (gmail_read.py)\<close>

text \<open>What the mailbox returns for one message, after decoding.\<close>

record raw_details =
  d_sender_name :: string
  d_sender_email :: string
  d_subject :: string
  d_body :: string
  d_date_received :: string

text \<open>
  The mailbox collaborator: listing the ids that match a query, and fetching one
  message. Either call may raise.
\<close>

record mailbox =
  list_messages :: "string \<Rightarrow> failure + string list"
  get_message :: "string \<Rightarrow> failure + raw_details"

record mail =
  g_id :: string
  g_sender_name :: string
  g_sender_email :: string
  g_subject :: string
  g_body :: string
  g_date_received :: string
  g_gmail_link :: string

definition list_ids :: "mailbox \<Rightarrow> string \<Rightarrow> failure + string list" where
  "list_ids svc query = list_messages svc query"

definition get_details :: "string \<Rightarrow> mailbox \<Rightarrow> string \<Rightarrow> failure + mail" where
  "get_details gmail_web_base svc msg_id =
     (case get_message svc msg_id of
        Inl e \<Rightarrow> Inl e
      | Inr d \<Rightarrow>
          Inr \<lparr>g_id = msg_id, g_sender_name = d_sender_name d,
               g_sender_email = d_sender_email d, g_subject = d_subject d,
               g_body = d_body d, g_date_received = d_date_received d,
               g_gmail_link = gmail_web_base @ msg_id\<rparr>)"

text \<open>
  The loop over \<open>new_ids\<close>: fetch the details, append the row, add the id to
  \<open>seen_ids\<close>. The set is mutated in place, so it is returned also when a fetch raises.
\<close>

fun fetch_rows ::
  "string \<Rightarrow> mailbox \<Rightarrow> string list \<Rightarrow> string set \<Rightarrow> (failure + mail list) \<times> string set" where
  "fetch_rows base svc [] seen_ids = (Inr [], seen_ids)"
| "fetch_rows base svc (mid # rest) seen_ids =
     (case get_details base svc mid of
        Inl e \<Rightarrow> (Inl e, seen_ids)
      | Inr details \<Rightarrow>
          (case fetch_rows base svc rest (insert mid seen_ids) of
             (Inl e, seen') \<Rightarrow> (Inl e, seen')
           | (Inr rows, seen') \<Rightarrow> (Inr (details # rows), seen')))"

definition fetch_new_as_dataframe ::
  "string \<Rightarrow> mailbox \<Rightarrow> string \<Rightarrow> string set \<Rightarrow> (failure + mail list) \<times> string set" where
  "fetch_new_as_dataframe base svc query seen_ids =
     (case list_ids svc query of
        Inl e \<Rightarrow> (Inl e, seen_ids)
      | Inr all_ids \<Rightarrow>
          (let new_ids = filter (\<lambda>mid. mid \<notin> seen_ids) all_ids
           in if new_ids = [] then (Inr [], seen_ids)
              else fetch_rows base svc new_ids seen_ids))"

section \<open>Classification stage (predict.py)\<close>

text \<open>
  A file on disk: absent, present but not readable (zero bytes, not a workbook), or
  present with a content.
\<close>

datatype 'a disk_file = Missing | Unreadable | Content 'a

text \<open>
  A data frame: the column names and, per row, the cells of the six columns the stage
  touches. An empty cell (NaN, \<open>pd.NA\<close>) is \<open>None\<close>. The \<open>id\<close> cell is the string that
  \<open>astype(str)\<close> gives.
\<close>

record mail_row =
  c_id :: string
  c_subject :: "string option"
  c_body :: "string option"
  c_text :: "string option"
  c_job_label :: "int option"
  c_prob_job :: "real option"

record frame =
  columns :: "string list"
  rows :: "mail_row list"

record classifier =
  predict :: "string list \<Rightarrow> int list"
  predict_proba :: "string list \<Rightarrow> real list"

record classifier_env =
  excel_path :: "frame disk_file"
  model_path :: "classifier disk_file"
  output_path :: "frame disk_file"

text \<open>What \<open>classify\<close> returns and writes, and the batches it handed to the model.\<close>

record classified =
  table :: frame
  model_inputs :: "string list list"

definition exists_file :: "'a disk_file \<Rightarrow> bool" where
  "exists_file f = (case f of Missing \<Rightarrow> False | _ \<Rightarrow> True)"

definition load_excel_safely :: "frame disk_file \<Rightarrow> failure + frame" where
  "load_excel_safely f = (case f of Content df \<Rightarrow> Inr df | _ \<Rightarrow> Inl SysExit1)"

definition load_model_safely :: "classifier disk_file \<Rightarrow> failure + classifier" where
  "load_model_safely f = (case f of Content m \<Rightarrow> Inr m | _ \<Rightarrow> Inl SysExit1)"

definition add_column :: "string \<Rightarrow> string list \<Rightarrow> string list" where
  "add_column c cols = (if c \<in> set cols then cols else cols @ [c])"

text \<open>Step 3, first half: the base is the source, with the two derived columns added empty
  when the source does not have them.\<close>

definition init_columns :: "frame \<Rightarrow> frame" where
  "init_columns df_src =
     (let df1 = (if ''job_label'' \<notin> set (columns df_src)
                 then \<lparr>columns = columns df_src @ [''job_label''],
                       rows = map (\<lambda>r. r\<lparr>c_job_label := None\<rparr>) (rows df_src)\<rparr>
                 else df_src)
      in if ''prob_job'' \<notin> set (columns df1)
         then \<lparr>columns = columns df1 @ [''prob_job''],
               rows = map (\<lambda>r. r\<lparr>c_prob_job := None\<rparr>) (rows df1)\<rparr>
         else df1)"

text \<open>\<open>drop_duplicates(subset=["id"])\<close>: the first row of every id is kept.\<close>

fun drop_duplicates :: "mail_row list \<Rightarrow> mail_row list" where
  "drop_duplicates [] = []"
| "drop_duplicates (r # rs) = r # filter (\<lambda>x. c_id x \<noteq> c_id r) (drop_duplicates rs)"

text \<open>\<open>Series.fillna\<close> on one cell.\<close>

definition fillna :: "'a option \<Rightarrow> 'a option \<Rightarrow> 'a option" where
  "fillna cell other = (case cell of None \<Rightarrow> other | Some v \<Rightarrow> Some v)"

text \<open>
  The left merge on \<open>id\<close> followed by the two \<open>fillna\<close>: a row of the base gives one row
  per matching row of the old table (one row with nothing filled in when none matches).
  A column of the old table is pulled only when the old table has it.
\<close>

definition fill_from_old :: "bool \<Rightarrow> bool \<Rightarrow> mail_row \<Rightarrow> mail_row \<Rightarrow> mail_row" where
  "fill_from_old pull_label pull_prob l old =
     l\<lparr>c_job_label :=
         (if pull_label then fillna (c_job_label l) (c_job_label old) else c_job_label l),
       c_prob_job :=
         (if pull_prob then fillna (c_prob_job l) (c_prob_job old) else c_prob_job l)\<rparr>"

definition merge_row :: "bool \<Rightarrow> bool \<Rightarrow> mail_row list \<Rightarrow> mail_row \<Rightarrow> mail_row list" where
  "merge_row pull_label pull_prob df_old_small l =
     (case filter (\<lambda>old. c_id old = c_id l) df_old_small of
        [] \<Rightarrow> [l]
      | m # ms \<Rightarrow> map (fill_from_old pull_label pull_prob l) (m # ms))"

definition merge_old :: "frame \<Rightarrow> frame \<Rightarrow> frame" where
  "merge_old df df_old =
     (let df_old_small = drop_duplicates (rows df_old)
      in df\<lparr>rows := concat (map (merge_row (''job_label'' \<in> set (columns df_old))
                                            (''prob_job'' \<in> set (columns df_old))
                                            df_old_small) (rows df))\<rparr>)"

text \<open>Step 4: empty subject and body become the empty string, \<open>text\<close> is their
  concatenation with a blank.\<close>

definition str_or_empty :: "string option \<Rightarrow> string" where
  "str_or_empty cell = (case cell of None \<Rightarrow> [] | Some s \<Rightarrow> s)"

definition prepare_text_row :: "mail_row \<Rightarrow> mail_row" where
  "prepare_text_row r =
     r\<lparr>c_subject := Some (str_or_empty (c_subject r)),
       c_body := Some (str_or_empty (c_body r)),
       c_text := Some (str_or_empty (c_subject r) @ '' '' @ str_or_empty (c_body r))\<rparr>"

definition prepare_text :: "frame \<Rightarrow> frame" where
  "prepare_text df =
     \<lparr>columns = add_column ''text'' (columns df), rows = map prepare_text_row (rows df)\<rparr>"

text \<open>The table of step 3 and 4, before any prediction: the base, the old
  classifications merged in when there are any to merge, the text prepared.\<close>

definition merged_table :: "frame \<Rightarrow> frame option \<Rightarrow> frame" where
  "merged_table df_src df_old =
     (let use_id = (''id'' \<in> set (columns df_src));
          df = init_columns df_src;
          df' = (case df_old of
                   None \<Rightarrow> df
                 | Some old \<Rightarrow>
                     if use_id \<and> ''id'' \<in> set (columns old) then merge_old df old else df)
      in prepare_text df')"

definition mask_new :: "mail_row \<Rightarrow> bool" where
  "mask_new r = (c_job_label r = None)"

text \<open>\<open>df.loc[mask_new, ...] = preds / probs\<close>: the values go, in order, to the rows
  of the mask.\<close>

fun assign_new :: "mail_row list \<Rightarrow> int list \<Rightarrow> real list \<Rightarrow> mail_row list" where
  "assign_new [] preds probs = []"
| "assign_new (r # rs) preds probs =
     (if mask_new r
      then (case (preds, probs) of
              (p # preds', q # probs') \<Rightarrow>
                r\<lparr>c_job_label := Some p, c_prob_job := Some q\<rparr> # assign_new rs preds' probs'
            | _ \<Rightarrow> r # assign_new rs preds probs)
      else r # assign_new rs preds probs)"

text \<open>Step 2: the old classified file is loaded when it exists.\<close>

definition load_old :: "frame disk_file \<Rightarrow> failure + frame option" where
  "load_old f =
     (if exists_file f
      then (case load_excel_safely f of Inl e \<Rightarrow> Inl e | Inr df_old \<Rightarrow> Inr (Some df_old))
      else Inr None)"

text \<open>Steps 4 to 6 on the merged table: nothing to classify, or load the model, predict
  on the rows of the mask and assign back.\<close>

definition predict_new :: "classifier disk_file \<Rightarrow> frame \<Rightarrow> failure + classified" where
  "predict_new mf df =
     (let texts_new = map (\<lambda>r. str_or_empty (c_text r)) (filter mask_new (rows df))
      in if length texts_new = 0 then Inr \<lparr>table = df, model_inputs = []\<rparr>
         else (case load_model_safely mf of
                 Inl e \<Rightarrow> Inl e
               | Inr m \<Rightarrow>
                   (let preds = predict m texts_new;
                        probs = predict_proba m texts_new
                    in if length preds \<noteq> length texts_new \<or> length probs \<noteq> length texts_new
                       then Inl ValueError
                       else Inr \<lparr>table = df\<lparr>rows := assign_new (rows df) preds probs\<rparr>,
                                 model_inputs = [texts_new, texts_new]\<rparr>)))"

definition classify :: "classifier_env \<Rightarrow> failure + classified" where
  "classify env =
     (if \<not> exists_file (excel_path env) then Inl SysExit1
      else if \<not> exists_file (model_path env) then Inl SysExit1
      else (case load_excel_safely (excel_path env) of
              Inl e \<Rightarrow> Inl e
            | Inr df_src \<Rightarrow>
                (if \<not> set [''subject'', ''body''] \<subseteq> set (columns df_src) then Inl SysExit1
                 else (case load_old (output_path env) of
                         Inl e \<Rightarrow> Inl e
                       | Inr df_old \<Rightarrow>
                           predict_new (model_path env) (merged_table df_src df_old)))))"

text \<open>One run: the output file is replaced when \<open>classify\<close> returns, left alone when
  it stops early.\<close>

definition run_classify :: "classifier_env \<Rightarrow> classifier_env" where
  "run_classify env =
     (case classify env of Inl e \<Rightarrow> env | Inr res \<Rightarrow> env\<lparr>output_path := Content (table res)\<rparr>)"

section \<open>The master CSV of the hybrid agent (inbox_agent_gmail_ml_v2.py)\<close>

text \<open>
  The master CSV on disk: no file; a file of zero bytes; a file with bytes in which
  \<open>pd.read_csv\<close> finds no columns (\<open>EmptyDataError\<close>); a file on which \<open>pd.read_csv\<close>
  raises something else; a table. Writing a frame without rows leaves a file with no
  columns. A table stands for a file whose \<open>email_id\<close> column \<open>pd.read_csv\<close> returns as
  the strings written; a column of digit-only ids, which it returns as numbers, is not
  modelled.
\<close>

datatype csv_file = NoFile | ZeroBytes | NoColumns | Malformed | Csv "job_row list"

definition to_csv :: "job_row list \<Rightarrow> csv_file" where
  "to_csv df = (if df = [] then NoColumns else Csv df)"

text \<open>\<open>os.path.exists(path) and os.path.getsize(path) > 0\<close>.\<close>

definition exists_nonempty :: "csv_file \<Rightarrow> bool" where
  "exists_nonempty f = (f \<noteq> NoFile \<and> f \<noteq> ZeroBytes)"

text \<open>\<open>drop_duplicates(subset=["email_id"], keep="last")\<close>.\<close>

fun drop_duplicates_last :: "job_row list \<Rightarrow> job_row list" where
  "drop_duplicates_last [] = []"
| "drop_duplicates_last (r # rs) =
     (if r_email_id r \<in> set (map r_email_id rs) then drop_duplicates_last rs
      else r # drop_duplicates_last rs)"

text \<open>The second half of \<open>process_and_update_csv\<close>: the returned frame, or the exception
  that escapes, and the file afterwards.\<close>

definition update_master :: "job_row list \<Rightarrow> csv_file \<Rightarrow> (failure + job_row list) \<times> csv_file" where
  "update_master new_df master =
     (if new_df = []
      then (if exists_nonempty master
            then (case master of
                    Csv old_df \<Rightarrow> (Inr old_df, master)
                  | NoColumns \<Rightarrow> (Inr new_df, to_csv new_df)
                  | _ \<Rightarrow> (Inl ParserError, master))
            else (Inr new_df, to_csv new_df))
      else (if exists_nonempty master
            then (case (case master of
                          Csv old_df \<Rightarrow> Inr old_df
                        | NoColumns \<Rightarrow> Inr []
                        | _ \<Rightarrow> Inl ParserError) of
                    Inl e \<Rightarrow> (Inl e, master)
                  | Inr old_df \<Rightarrow>
                      (let merged = drop_duplicates_last (old_df @ new_df)
                       in (Inr merged, to_csv merged)))
            else (Inr new_df, to_csv new_df)))"

definition process_and_update_csv ::
  "(string list \<Rightarrow> real list) \<Rightarrow> real \<Rightarrow> SimpleEmail list \<Rightarrow> csv_file
     \<Rightarrow> (failure + job_row list) \<times> csv_file" where
  "process_and_update_csv proba prob_threshold emails master =
     (let texts = map (\<lambda>e. combine_fields (subject e) (body e) (sender e)) emails;
          probas = proba texts
      in update_master (process_rows prob_threshold (zip emails probas)) master)"

section \<open>Index stage (rag.py)\<close>

text \<open>
  The parsed, classified table: the six required columns, an empty cell is \<open>None\<close>.
  \<open>astype(str)\<close> turns an empty cell into \<open>nan\<close>.
\<close>

record parsed_row =
  p_mailcontent :: "string option"
  p_company_name :: "string option"
  p_position_applied :: "string option"
  p_application_date :: "string option"
  p_status :: "string option"
  p_mail_link :: "string option"

record parsed_frame =
  p_columns :: "string list"
  p_rows :: "parsed_row list"

definition required_cols :: "string list" where
  "required_cols =
     [''mailcontent'', ''company_name'', ''position_applied'', ''application_date'',
      ''status'', ''mail_link'']"

definition astype_str :: "string option \<Rightarrow> string" where
  "astype_str cell = (case cell of None \<Rightarrow> ''nan'' | Some s \<Rightarrow> s)"

text \<open>\<open>str(i)\<close> for a row index.\<close>

fun str_nat :: "nat \<Rightarrow> string" where
  "str_nat n =
     (if n < 10 then [char_of (48 + n)]
      else str_nat (n div 10) @ [char_of (48 + n mod 10)])"

text \<open>\<open>mail_link\<close> after \<open>fillna("").astype(str)\<close>, and the \<open>doc_id\<close> of the row at index
  \<open>i\<close>: the link, or \<open>row_i\<close> when the link is empty.\<close>

definition mail_link :: "parsed_row \<Rightarrow> string" where
  "mail_link r = (case p_mail_link r of None \<Rightarrow> [] | Some s \<Rightarrow> s)"

definition doc_id :: "nat \<Rightarrow> parsed_row \<Rightarrow> string" where
  "doc_id i r = (if mail_link r = [] then ''row_'' @ str_nat i else mail_link r)"

definition with_doc_ids :: "parsed_row list \<Rightarrow> (string \<times> parsed_row) list" where
  "with_doc_ids rs = map (\<lambda>(i, r). (doc_id i r, r)) (enumerate 0 rs)"

text \<open>One entry of the vector store.\<close>

record entry =
  e_id :: string
  e_document :: string
  e_metadata :: "(string \<times> string) list"
  e_embedding :: "real list"

text \<open>
  The Chroma collection, at its interface. \<open>get(limit=n)\<close> returns at most \<open>n\<close>
  entries. \<open>add\<close> refuses an empty batch, a batch with a repeated id
  (\<open>DuplicateIDError\<close>) and batches of different lengths; it appends the entries of the
  batch and ignores an entry whose id the collection already has.
\<close>

definition collection_get :: "nat \<Rightarrow> entry list \<Rightarrow> entry list" where
  "collection_get limit store = take limit store"

definition collection_add ::
  "string list \<Rightarrow> string list \<Rightarrow> (string \<times> string) list list \<Rightarrow> real list list
     \<Rightarrow> entry list \<Rightarrow> failure + entry list" where
  "collection_add ids documents metadatas embeddings store =
     (if ids = [] then Inl ValueError
      else if \<not> distinct ids then Inl DuplicateIDError
      else if length documents \<noteq> length ids \<or> length metadatas \<noteq> length ids \<or>
              length embeddings \<noteq> length ids then Inl ValueError
      else Inr (store @
             filter (\<lambda>e. e_id e \<notin> set (map e_id store))
               (map (\<lambda>(i, d, m, v). \<lparr>e_id = i, e_document = d, e_metadata = m, e_embedding = v\<rparr>)
                  (zip ids (zip documents (zip metadatas embeddings))))))"

definition metadata_of :: "parsed_row \<Rightarrow> (string \<times> string) list" where
  "metadata_of r =
     [(''company_name'', astype_str (p_company_name r)),
      (''position_applied'', astype_str (p_position_applied r)),
      (''application_date'', astype_str (p_application_date r)),
      (''status'', astype_str (p_status r)),
      (''mail_link'', mail_link r)]"

definition existing_ids :: "entry list \<Rightarrow> string set" where
  "existing_ids store = set (map e_id (collection_get 1000000 store))"

text \<open>\<open>df_new\<close>: the rows whose \<open>doc_id\<close> is not among the existing ids.\<close>

definition df_new :: "parsed_frame \<Rightarrow> entry list \<Rightarrow> (string \<times> parsed_row) list" where
  "df_new df store = filter (\<lambda>(d, r). d \<notin> existing_ids store) (with_doc_ids (p_rows df))"

text \<open>What one run of the module leaves: the collection, the batches handed to the
  embedding model, and the exception that stopped it, if any.\<close>

record sync_result =
  new_store :: "entry list"
  embed_calls :: "string list list"
  raised :: "failure option"

definition incremental_add ::
  "(string list \<Rightarrow> real list list) \<Rightarrow> parsed_frame \<Rightarrow> entry list \<Rightarrow> sync_result" where
  "incremental_add encode df store =
     (if \<not> set required_cols \<subseteq> set (p_columns df)
      then \<lparr>new_store = store, embed_calls = [], raised = Some ValueError\<rparr>
      else if df_new df store = []
      then \<lparr>new_store = store, embed_calls = [], raised = None\<rparr>
      else (let ids = map fst (df_new df store);
                documents = map (\<lambda>(d, r). astype_str (p_mailcontent r)) (df_new df store);
                metadatas = map (\<lambda>(d, r). metadata_of r) (df_new df store);
                embeddings = encode documents
            in (case collection_add ids documents metadatas embeddings store of
                  Inl e \<Rightarrow> \<lparr>new_store = store, embed_calls = [documents], raised = Some e\<rparr>
                | Inr store' \<Rightarrow>
                    \<lparr>new_store = store', embed_calls = [documents], raised = None\<rparr>)))"

text \<open>Any number of runs, one table per run, each on the collection the run before
  left.\<close>

fun sync_runs ::
  "(string list \<Rightarrow> real list list) \<Rightarrow> parsed_frame list \<Rightarrow> entry list \<Rightarrow> entry list" where
  "sync_runs encode [] store = store"
| "sync_runs encode (df # dfs) store =
     sync_runs encode dfs (new_store (incremental_add encode df store))"

section \<open>Query layer (rag.py)\<close>

record document =
  page_content :: string
  metadata :: string

record RAGState =
  question :: string
  retrieved_docs :: "document list"
  answer :: string

text \<open>What the generation model returns: a string, an object with a \<open>content\<close>, or
  another object, known by its \<open>str\<close>.\<close>

datatype llm_output = Str string | WithContent string | Other string

definition nl :: string where
  "nl = [CHR 0x0A]"

fun join :: "string \<Rightarrow> string list \<Rightarrow> string" where
  "join sep [] = []"
| "join sep [x] = x"
| "join sep (x # y # ys) = x @ sep @ join sep (y # ys)"

definition prompt_template :: "string \<Rightarrow> string \<Rightarrow> string" where
  "prompt_template q context =
     nl @ ''You are an assistant specializing in understanding job application emails.'' @ nl @
     nl @ ''Use ONLY the context given. Do NOT guess or hallucinate.'' @ nl @
     nl @ ''QUESTION:'' @ nl @ q @ nl @
     nl @ ''CONTEXT FROM EMAILS:'' @ nl @ context @ nl @
     nl @ ''Provide a concise, accurate status update:'' @ nl"

definition no_match_answer :: string where
  "no_match_answer =
     ''I couldn't find any matching job application emails for this question.''"

definition retrieve_node :: "(string \<Rightarrow> document list) \<Rightarrow> RAGState \<Rightarrow> RAGState" where
  "retrieve_node retriever state = state\<lparr>retrieved_docs := retriever (question state)\<rparr>"

text \<open>\<open>llm_node\<close> returns the state and the prompts it sent to the generation model.\<close>

definition llm_node :: "(string \<Rightarrow> llm_output) \<Rightarrow> RAGState \<Rightarrow> RAGState \<times> string list" where
  "llm_node llm state =
     (if retrieved_docs state = [] then (state\<lparr>answer := no_match_answer\<rparr>, [])
      else (let context = join (nl @ nl)
                  (map (\<lambda>doc. ''EMAIL:'' @ nl @ page_content doc @ nl @ ''METADATA: '' @ metadata doc)
                     (retrieved_docs state));
                final_prompt = prompt_template (question state) context
            in (case llm final_prompt of
                  Str s \<Rightarrow> (state\<lparr>answer := strip s\<rparr>, [final_prompt])
                | WithContent s \<Rightarrow> (state\<lparr>answer := strip s\<rparr>, [final_prompt])
                | Other s \<Rightarrow> (state\<lparr>answer := strip s\<rparr>, [final_prompt]))))"

definition ask ::
  "(string \<Rightarrow> document list) \<Rightarrow> (string \<Rightarrow> llm_output) \<Rightarrow> string \<Rightarrow> string \<times> string list" where
  "ask retriever llm q =
     (let initial_state = \<lparr>question = q, retrieved_docs = [], answer = []\<rparr>;
          (final_state, prompts) = llm_node llm (retrieve_node retriever initial_state)
      in (answer final_state, prompts))"

section \<open>Example inputs\<close>

text \<open>A bank statement mail, a mail from an applicant tracking system, a mail that
  announces an opening.\<close>

definition chase_mail :: SimpleEmail where
  "chase_mail =
     \<lparr>email_id = ''m1'', date = ''Mon, 01 Dec 2025 09:00:00 +0000'',
      sender = ''Chase <alerts@chase.com>'', subject = ''Your statement is ready'',
      body = ''Log in to view your statement.''\<rparr>"

definition workday_mail :: SimpleEmail where
  "workday_mail =
     \<lparr>email_id = ''m2'', date = ''Tue, 02 Dec 2025 09:00:00 +0000'',
      sender = ''Acme Careers <acme@myworkday.com>'', subject = ''Update'',
      body = ''Please sign in to your candidate home.''\<rparr>"

text \<open>A mail from a person, with a phrase of the subject list in its body only.\<close>

definition offer_mail :: SimpleEmail where
  "offer_mail =
     \<lparr>email_id = ''m4'', date = ''Wed, 03 Dec 2025 09:00:00 +0000'',
      sender = ''Dana <dana@example.org>'', subject = ''Hello'',
      body = ''Please find your offer letter attached.''\<rparr>"

definition opening_text :: string where
  "opening_text = ''Job opening: Data Analyst [SEP] We are hiring in Berlin''"

definition applied_text :: string where
  "applied_text = ''Thank you for applying [SEP] We regret to inform you''"

text \<open>A mailbox with three messages, one of which cannot be fetched.\<close>

definition demo_details :: raw_details where
  "demo_details =
     \<lparr>d_sender_name = ''Acme'', d_sender_email = ''jobs@acme.com'', d_subject = ''Hello'',
      d_body = ''Body'', d_date_received = ''2025-12-06 10:00:00''\<rparr>"

definition demo_mailbox :: mailbox where
  "demo_mailbox =
     \<lparr>list_messages = (\<lambda>q. Inr [''a'', ''b'', ''c'']),
      get_message = (\<lambda>mid. if mid = ''b'' then Inl ApiError else Inr demo_details)\<rparr>"

text \<open>A raw store of two mails, an old classified store that knows the first, and a
  model that would label every text 0.\<close>

definition demo_src :: frame where
  "demo_src =
     \<lparr>columns = [''id'', ''sender_email'', ''subject'', ''body''],
      rows = [\<lparr>c_id = ''a'', c_subject = Some ''Thank you for applying'',
               c_body = Some ''We got it'', c_text = None, c_job_label = None,
               c_prob_job = None\<rparr>,
              \<lparr>c_id = ''b'', c_subject = Some ''Sale'', c_body = None, c_text = None,
               c_job_label = None, c_prob_job = None\<rparr>]\<rparr>"

definition demo_prev :: mail_row where
  "demo_prev =
     \<lparr>c_id = ''a'', c_subject = Some ''Thank you for applying'', c_body = Some ''We got it'',
      c_text = Some ''Thank you for applying We got it'', c_job_label = Some 1,
      c_prob_job = Some (9 / 10)\<rparr>"

definition demo_old :: frame where
  "demo_old =
     \<lparr>columns = [''id'', ''sender_email'', ''subject'', ''body'', ''job_label'', ''prob_job'',
                 ''text''],
      rows = [demo_prev]\<rparr>"

definition demo_model :: classifier where
  "demo_model = \<lparr>predict = map (\<lambda>t. 0), predict_proba = map (\<lambda>t. 1 / 4)\<rparr>"

definition demo_env :: classifier_env where
  "demo_env =
     \<lparr>excel_path = Content demo_src, model_path = Content demo_model,
      output_path = Content demo_old\<rparr>"

definition demo_res :: classified where
  "demo_res =
     \<lparr>table =
        \<lparr>columns = [''id'', ''sender_email'', ''subject'', ''body'', ''job_label'', ''prob_job'',
                    ''text''],
         rows = [demo_prev,
                 \<lparr>c_id = ''b'', c_subject = Some ''Sale'', c_body = Some [],
                  c_text = Some ''Sale '', c_job_label = Some 0,
                  c_prob_job = Some (1 / 4)\<rparr>]\<rparr>,
      model_inputs = [[''Sale ''], [''Sale '']]\<rparr>"

text \<open>A previous classified store that only knows a mail no longer in the raw store.\<close>

definition demo_old_stale :: frame where
  "demo_old_stale =
     \<lparr>columns = [''id'', ''sender_email'', ''subject'', ''body'', ''job_label'', ''prob_job'',
                 ''text''],
      rows = [\<lparr>c_id = ''z'', c_subject = Some ''Offer letter'', c_body = Some [],
               c_text = Some ''Offer letter '', c_job_label = Some 1,
               c_prob_job = Some (3 / 4)\<rparr>]\<rparr>"

definition demo_env_stale :: classifier_env where
  "demo_env_stale =
     \<lparr>excel_path = Content demo_src, model_path = Content demo_model,
      output_path = Content demo_old_stale\<rparr>"

definition demo_res_stale :: classified where
  "demo_res_stale =
     \<lparr>table =
        \<lparr>columns = [''id'', ''sender_email'', ''subject'', ''body'', ''job_label'', ''prob_job'',
                    ''text''],
         rows = [\<lparr>c_id = ''a'', c_subject = Some ''Thank you for applying'',
                  c_body = Some ''We got it'',
                  c_text = Some ''Thank you for applying We got it'', c_job_label = Some 0,
                  c_prob_job = Some (1 / 4)\<rparr>,
                 \<lparr>c_id = ''b'', c_subject = Some ''Sale'', c_body = Some [],
                  c_text = Some ''Sale '', c_job_label = Some 0,
                  c_prob_job = Some (1 / 4)\<rparr>]\<rparr>,
      model_inputs = [[''Thank you for applying We got it'', ''Sale ''],
                      [''Thank you for applying We got it'', ''Sale '']]\<rparr>"

text \<open>A parsed table of two rows, the second without a link, and an embedding model.\<close>

definition demo_row1 :: parsed_row where
  "demo_row1 =
     \<lparr>p_mailcontent = Some ''Thank you for applying'', p_company_name = Some ''Acme'',
      p_position_applied = Some ''Analyst'', p_application_date = None,
      p_status = Some ''applied'', p_mail_link = Some ''link1''\<rparr>"

definition demo_row2 :: parsed_row where
  "demo_row2 =
     \<lparr>p_mailcontent = Some ''Interview invitation'', p_company_name = Some ''Bolt'',
      p_position_applied = None, p_application_date = None,
      p_status = Some ''interview'', p_mail_link = None\<rparr>"

definition demo_parsed :: parsed_frame where
  "demo_parsed = \<lparr>p_columns = required_cols, p_rows = [demo_row1, demo_row2]\<rparr>"

definition demo_encode :: "string list \<Rightarrow> real list list" where
  "demo_encode docs = map (\<lambda>d. [real (length d)]) docs"

definition demo_store :: "entry list" where
  "demo_store =
     [\<lparr>e_id = ''link1'', e_document = ''Thank you for applying'',
       e_metadata = [(''company_name'', ''Acme'')], e_embedding = [22]\<rparr>]"

definition demo_state :: RAGState where
  "demo_state = \<lparr>question = ''Any news from Acme?'', retrieved_docs = [], answer = []\<rparr>"

section \<open>Auxiliary facts\<close>

subsection \<open>Hybrid decision layer\<close>

lemma accepted_iff: "accepted thr e p \<longleftrightarrow> has_strong_job_signal (subject e) (body e) (sender e) \<or> thr \<le> p"
  by (auto simp: accepted_def skipped_def Let_def)

lemma lower_append: "lower (a @ b) = lower a @ lower b" by (simp add: lower_def)

lemma any_in_append: "any_in ps b \<Longrightarrow> any_in ps (a @ b)" "any_in ps a \<Longrightarrow> any_in ps (a @ b)"
  by (auto simp: any_in_def contains_def list_ex_iff sublist_append)

lemma any_in_text:
  "any_in ps (lower s) \<or> any_in ps (lower b) \<Longrightarrow> any_in ps (lower (s @ sep @ b))"
  unfolding lower_append by (auto intro: any_in_append)

subsection \<open>Fetch stage\<close>

lemma get_details_id: "get_details base svc mid = Inr d \<Longrightarrow> g_id d = mid"
  by (auto simp: get_details_def split: sum.splits)

lemma get_details_ok: "get_message svc mid = Inr d \<Longrightarrow> \<exists>r. get_details base svc mid = Inr r"
  by (simp add: get_details_def)

lemma fetch_rows_ok:
  "\<forall>mid\<in>set ids. \<exists>d. get_message svc mid = Inr d \<Longrightarrow>
   \<exists>rows. fetch_rows base svc ids seen = (Inr rows, seen \<union> set ids) \<and> map g_id rows = ids"
proof (induction ids arbitrary: seen)
  case Nil
  then show ?case by simp
next
  case (Cons mid rest)
  from Cons.prems obtain d where d: "get_message svc mid = Inr d" by auto
  then obtain r where r: "get_details base svc mid = Inr r" using get_details_ok by blast
  from Cons.prems have "\<forall>m\<in>set rest. \<exists>d. get_message svc m = Inr d" by simp
  from Cons.IH [OF this, of "insert mid seen"] obtain rows where
    rows: "fetch_rows base svc rest (insert mid seen) = (Inr rows, insert mid seen \<union> set rest)"
      "map g_id rows = rest" by blast
  have a: "fetch_rows base svc (mid # rest) seen = (Inr (r # rows), seen \<union> set (mid # rest))"
    using r rows by simp
  have b: "map g_id (r # rows) = mid # rest"
    using rows get_details_id [OF r] by simp
  show ?case by (rule exI [of _ "r # rows"]) (simp only: a b)
qed

lemma length_filter_not: "length (filter (\<lambda>x. \<not> P x) xs) = length xs - length (filter P xs)"
  using sum_length_filter_compl [of P xs] by simp

subsection \<open>Classification stage\<close>

lemma filter_drop_duplicates:
  "filter (\<lambda>old. c_id old = i) (drop_duplicates rs) =
   (case find (\<lambda>old. c_id old = i) rs of None \<Rightarrow> [] | Some old \<Rightarrow> [old])"
proof (induction rs)
  case Nil
  then show ?case by simp
next
  case (Cons r rs)
  show ?case
  proof (cases "c_id r = i")
    case True
    then have "filter (\<lambda>old. c_id old = i) (filter (\<lambda>x. c_id x \<noteq> c_id r) (drop_duplicates rs)) = []"
      by (simp add: filter_empty_conv)
    with True show ?thesis by simp
  next
    case False
    then have "filter (\<lambda>old. c_id old = i) (filter (\<lambda>x. c_id x \<noteq> c_id r) (drop_duplicates rs))
       = filter (\<lambda>old. c_id old = i) (drop_duplicates rs)"
      by (auto intro: filter_cong)
    with False Cons.IH show ?thesis by simp
  qed
qed

lemma merge_row_single:
  "merge_row pl pp (drop_duplicates olds) l =
   [case find (\<lambda>old. c_id old = c_id l) olds of None \<Rightarrow> l | Some old \<Rightarrow> fill_from_old pl pp l old]"
  by (simp add: merge_row_def filter_drop_duplicates split: option.splits)

lemma concat_map_single: "(\<And>x. f x = [g x]) \<Longrightarrow> concat (map f xs) = map g xs"
  by (induction xs) simp_all

lemma rows_merge_old:
  "rows (merge_old df df_old) =
   map (\<lambda>l. case find (\<lambda>old. c_id old = c_id l) (rows df_old) of
               None \<Rightarrow> l
             | Some old \<Rightarrow> fill_from_old (''job_label'' \<in> set (columns df_old))
                            (''prob_job'' \<in> set (columns df_old)) l old) (rows df)"
  unfolding merge_old_def Let_def
  by (simp add: concat_map_single [OF merge_row_single])

lemma columns_merge_old: "columns (merge_old df df_old) = columns df"
  by (simp add: merge_old_def Let_def)

lemma init_columns_ids: "map c_id (rows (init_columns src)) = map c_id (rows src)"
  by (simp add: init_columns_def Let_def comp_def)

lemma init_columns_subject: "map c_subject (rows (init_columns src)) = map c_subject (rows src)"
  by (simp add: init_columns_def Let_def comp_def)

lemma init_columns_body: "map c_body (rows (init_columns src)) = map c_body (rows src)"
  by (simp add: init_columns_def Let_def comp_def)

lemma merge_old_ids: "map c_id (rows (merge_old df df_old)) = map c_id (rows df)"
  by (simp add: rows_merge_old fill_from_old_def comp_def split: option.splits cong: map_cong)

lemma merge_old_subject: "map c_subject (rows (merge_old df df_old)) = map c_subject (rows df)"
  by (simp add: rows_merge_old fill_from_old_def comp_def split: option.splits cong: map_cong)

lemma merge_old_body: "map c_body (rows (merge_old df df_old)) = map c_body (rows df)"
  by (simp add: rows_merge_old fill_from_old_def comp_def split: option.splits cong: map_cong)

lemma rows_merged_table:
  "rows (merged_table src old) =
   map prepare_text_row
     (rows (case old of None \<Rightarrow> init_columns src
            | Some df_old \<Rightarrow>
                if ''id'' \<in> set (columns src) \<and> ''id'' \<in> set (columns df_old)
                then merge_old (init_columns src) df_old else init_columns src))"
  by (simp add: merged_table_def Let_def prepare_text_def split: option.splits)

lemma prepare_ids: "map c_id (map prepare_text_row xs) = map c_id xs"
  by (simp add: prepare_text_row_def comp_def)

lemma prepare_subject:
  "map c_subject (map prepare_text_row xs) = map (\<lambda>r. Some (str_or_empty r)) (map c_subject xs)"
  by (simp add: prepare_text_row_def comp_def)

lemma prepare_body:
  "map c_body (map prepare_text_row xs) = map (\<lambda>r. Some (str_or_empty r)) (map c_body xs)"
  by (simp add: prepare_text_row_def comp_def)

lemma base_fields:
  fixes src old
  defines "base \<equiv> (case old of None \<Rightarrow> init_columns src
            | Some df_old \<Rightarrow>
                if ''id'' \<in> set (columns src) \<and> ''id'' \<in> set (columns df_old)
                then merge_old (init_columns src) df_old else init_columns src)"
  shows "map c_id (rows base) = map c_id (rows src)"
    and "map c_subject (rows base) = map c_subject (rows src)"
    and "map c_body (rows base) = map c_body (rows src)"
  unfolding base_def
  by (simp_all add: merge_old_ids merge_old_subject merge_old_body
      init_columns_ids init_columns_subject init_columns_body split: option.splits)

lemma merged_table_ids: "map c_id (rows (merged_table src old)) = map c_id (rows src)"
  unfolding rows_merged_table prepare_ids by (rule base_fields)

lemma merged_table_subject:
  "map c_subject (rows (merged_table src old)) =
   map (\<lambda>r. Some (str_or_empty r)) (map c_subject (rows src))"
  unfolding rows_merged_table prepare_subject by (simp only: base_fields)

lemma merged_table_body:
  "map c_body (rows (merged_table src old)) =
   map (\<lambda>r. Some (str_or_empty r)) (map c_body (rows src))"
  unfolding rows_merged_table prepare_body by (simp only: base_fields)

lemma assign_new_ids: "map c_id (assign_new rs ps qs) = map c_id rs"
  by (induction rs ps qs rule: assign_new.induct) (auto split: list.splits)

lemma assign_new_subject: "map c_subject (assign_new rs ps qs) = map c_subject rs"
  by (induction rs ps qs rule: assign_new.induct) (auto split: list.splits)

lemma assign_new_body: "map c_body (assign_new rs ps qs) = map c_body rs"
  by (induction rs ps qs rule: assign_new.induct) (auto split: list.splits)

lemma assign_new_keeps:
  "k < length rs \<Longrightarrow> \<not> mask_new (rs ! k) \<Longrightarrow> assign_new rs ps qs ! k = rs ! k"
proof (induction rs ps qs arbitrary: k rule: assign_new.induct)
  case (1 preds probs)
  then show ?case by simp
next
  case (2 r rs preds probs)
  then show ?case by (cases k) (auto split: list.splits)
qed

lemma predict_new_cases:
  assumes "predict_new mf df = Inr res"
  shows "(filter mask_new (rows df) = [] \<and> res = \<lparr>table = df, model_inputs = []\<rparr>) \<or>
         (\<exists>m. mf = Content m \<and> filter mask_new (rows df) \<noteq> [] \<and>
              length (predict m (map (\<lambda>r. str_or_empty (c_text r)) (filter mask_new (rows df))))
                = length (filter mask_new (rows df)) \<and>
              length (predict_proba m (map (\<lambda>r. str_or_empty (c_text r)) (filter mask_new (rows df))))
                = length (filter mask_new (rows df)) \<and>
              res = \<lparr>table = df\<lparr>rows := assign_new (rows df)
                         (predict m (map (\<lambda>r. str_or_empty (c_text r)) (filter mask_new (rows df))))
                         (predict_proba m (map (\<lambda>r. str_or_empty (c_text r)) (filter mask_new (rows df))))\<rparr>,
                      model_inputs = [map (\<lambda>r. str_or_empty (c_text r)) (filter mask_new (rows df)),
                                      map (\<lambda>r. str_or_empty (c_text r)) (filter mask_new (rows df))]\<rparr>)"
  using assms
  by (auto simp: predict_new_def Let_def load_model_safely_def
      split: if_splits sum.splits disk_file.splits)

lemma classify_cases:
  assumes "classify env = Inr res" and "excel_path env = Content src"
  shows "\<exists>old. load_old (output_path env) = Inr old \<and>
           predict_new (model_path env) (merged_table src old) = Inr res"
  using assms
  by (auto simp: classify_def load_excel_safely_def split: if_splits sum.splits)

lemma predict_new_ids:
  "predict_new mf df = Inr res \<Longrightarrow> map c_id (rows (table res)) = map c_id (rows df)"
  by (drule predict_new_cases) (auto simp: assign_new_ids)

lemma predict_new_subject:
  "predict_new mf df = Inr res \<Longrightarrow> map c_subject (rows (table res)) = map c_subject (rows df)"
  by (drule predict_new_cases) (auto simp: assign_new_subject)

lemma predict_new_body:
  "predict_new mf df = Inr res \<Longrightarrow> map c_body (rows (table res)) = map c_body (rows df)"
  by (drule predict_new_cases) (auto simp: assign_new_body)

lemma find_distinct_nth:
  "distinct (map f xs) \<Longrightarrow> k < length xs \<Longrightarrow> find (\<lambda>x. f x = f (xs ! k)) xs = Some (xs ! k)"
proof (induction xs arbitrary: k)
  case Nil
  then show ?case by simp
next
  case (Cons x xs)
  show ?case
  proof (cases k)
    case 0
    then show ?thesis by simp
  next
    case (Suc j)
    with Cons.prems have "f (xs ! j) \<in> set (map f xs)" by simp
    with Cons.prems have "f x \<noteq> f (xs ! j)" by auto
    with Suc Cons show ?thesis by simp
  qed
qed

lemma rows_init_columns_plain:
  "''job_label'' \<notin> set (columns src) \<Longrightarrow> ''prob_job'' \<notin> set (columns src) \<Longrightarrow>
   rows (init_columns src) = map (\<lambda>r. r\<lparr>c_job_label := None, c_prob_job := None\<rparr>) (rows src)"
  by (simp add: init_columns_def Let_def)

lemma columns_init_columns:
  "columns (init_columns src) = add_column ''prob_job'' (add_column ''job_label'' (columns src))"
  by (simp add: init_columns_def Let_def add_column_def)

lemma columns_merged_table:
  "columns (merged_table src old) =
   add_column ''text'' (add_column ''prob_job'' (add_column ''job_label'' (columns src)))"
  by (simp add: merged_table_def Let_def prepare_text_def columns_init_columns columns_merge_old
      split: option.splits)

lemma columns_table:
  "predict_new mf df = Inr res \<Longrightarrow> columns (table res) = columns df"
  by (drule predict_new_cases) auto

lemma assign_new_all:
  "length ps = length (filter mask_new rs) \<Longrightarrow> length qs = length (filter mask_new rs) \<Longrightarrow>
   r \<in> set (assign_new rs ps qs) \<Longrightarrow> \<not> mask_new r"
proof (induction rs arbitrary: ps qs)
  case Nil
  then show ?case by simp
next
  case (Cons x rs)
  show ?case
  proof (cases "mask_new x")
    case True
    with Cons.prems obtain p ps' q qs' where pq: "ps = p # ps'" "qs = q # qs'"
      by (cases ps; cases qs) auto
    from Cons.prems True pq have
      "r = x\<lparr>c_job_label := Some p, c_prob_job := Some q\<rparr> \<or> r \<in> set (assign_new rs ps' qs')"
      by simp
    moreover have "length ps' = length (filter mask_new rs)" "length qs' = length (filter mask_new rs)"
      using Cons.prems True pq by simp_all
    moreover have "\<not> mask_new (x\<lparr>c_job_label := Some p, c_prob_job := Some q\<rparr>)"
      by (simp add: mask_new_def)
    ultimately show ?thesis using Cons.IH [of ps' qs'] by blast
  next
    case False
    with Cons.prems have "r = x \<or> r \<in> set (assign_new rs ps qs)" by simp
    moreover have "length ps = length (filter mask_new rs)" "length qs = length (filter mask_new rs)"
      using Cons.prems False by simp_all
    ultimately show ?thesis using Cons.IH [of ps qs] False by auto
  qed
qed

lemma assign_new_shape:
  "k < length rs \<Longrightarrow>
   assign_new rs ps qs ! k =
     (rs ! k)\<lparr>c_job_label := c_job_label (assign_new rs ps qs ! k),
              c_prob_job := c_prob_job (assign_new rs ps qs ! k)\<rparr>"
proof (induction rs ps qs arbitrary: k rule: assign_new.induct)
  case (1 preds probs)
  then show ?case by simp
next
  case (2 r rs preds probs)
  then show ?case by (cases k) (auto split: list.splits)
qed

lemma predict_new_all:
  assumes "predict_new mf df = Inr res" and "r \<in> set (rows (table res))"
  shows "\<not> mask_new r"
proof -
  from predict_new_cases [OF assms(1)] show ?thesis
  proof (elim disjE conjE exE)
    assume "filter mask_new (rows df) = []" "res = \<lparr>table = df, model_inputs = []\<rparr>"
    with assms(2) show ?thesis by (auto simp: filter_empty_conv)
  next
    fix m :: classifier
    let ?t = "map (\<lambda>r. str_or_empty (c_text r)) (filter mask_new (rows df))"
    assume l: "length (predict m ?t) = length (filter mask_new (rows df))"
      "length (predict_proba m ?t) = length (filter mask_new (rows df))"
      and "res = \<lparr>table = df\<lparr>rows := assign_new (rows df) (predict m ?t) (predict_proba m ?t)\<rparr>,
                  model_inputs = [?t, ?t]\<rparr>"
    with assms(2) have "r \<in> set (assign_new (rows df) (predict m ?t) (predict_proba m ?t))" by simp
    from assign_new_all [OF l this] show ?thesis .
  qed
qed

lemma predict_new_shape:
  assumes "predict_new mf df = Inr res" and "k < length (rows df)"
  shows "rows (table res) ! k =
     (rows df ! k)\<lparr>c_job_label := c_job_label (rows (table res) ! k),
                   c_prob_job := c_prob_job (rows (table res) ! k)\<rparr>"
  using predict_new_cases [OF assms(1)] assms(2) assign_new_shape [OF assms(2)]
  by auto

lemma rerun_merged_table:
  assumes p1: "predict_new mf (merged_table src old1) = Inr res1"
    and idc: "''id'' \<in> set (columns src)"
    and nlab: "''job_label'' \<notin> set (columns src)"
    and nprob: "''prob_job'' \<notin> set (columns src)"
    and dist: "distinct (map c_id (rows src))"
  shows "merged_table src (Some (table res1)) = table res1"
proof -
  let ?T = "table res1"
  let ?init = "\<lambda>r. r\<lparr>c_job_label := None, c_prob_job := None\<rparr>"
  have colsT: "columns ?T = add_column ''text'' (add_column ''prob_job'' (add_column ''job_label'' (columns src)))"
    using columns_table [OF p1] columns_merged_table by simp
  have idT: "''id'' \<in> set (columns ?T)" and labT: "''job_label'' \<in> set (columns ?T)"
    and probT: "''prob_job'' \<in> set (columns ?T)"
    unfolding colsT using idc by (simp_all add: add_column_def)
  have idsT: "map c_id (rows ?T) = map c_id (rows src)"
    using predict_new_ids [OF p1] merged_table_ids by simp
  have lenT: "length (rows ?T) = length (rows src)" using idsT by (metis length_map)
  have len1: "length (rows (merged_table src old1)) = length (rows src)"
    using merged_table_ids [of src old1] by (metis length_map)
  have rows2: "rows (merged_table src (Some ?T)) =
      map (\<lambda>l. prepare_text_row (case find (\<lambda>old. c_id old = c_id l) (rows ?T) of
               None \<Rightarrow> l | Some old \<Rightarrow> fill_from_old True True l old)) (map ?init (rows src))"
    using idc idT labT probT
    by (simp add: rows_merged_table rows_merge_old rows_init_columns_plain [OF nlab nprob] comp_def
        cong: option.case_cong)
  have "rows (merged_table src (Some ?T)) = rows ?T"
  proof (rule nth_equalityI)
    show "length (rows (merged_table src (Some ?T))) = length (rows ?T)"
      using lenT by (simp add: rows2)
  next
    fix k assume "k < length (rows (merged_table src (Some ?T)))"
    then have k: "k < length (rows src)" by (simp add: rows2)
    then have kT: "k < length (rows ?T)" using lenT by simp
    have idk: "c_id (rows ?T ! k) = c_id (rows src ! k)"
      using idsT k kT by (metis nth_map)
    have distT: "distinct (map c_id (rows ?T))" using dist idsT by simp
    have f: "find (\<lambda>old. c_id old = c_id (rows src ! k)) (rows ?T) = Some (rows ?T ! k)"
      using find_distinct_nth [OF distT kT] idk by simp
    have lab: "c_job_label (rows ?T ! k) \<noteq> None"
      using predict_new_all [OF p1, of "rows ?T ! k"] kT by (simp add: mask_new_def)
    \<comment> \<open>the row of the first run is the prepared base row with a label and a probability\<close>
    let ?M = "rows (merged_table src old1) ! k"
    have m1: "?M = (prepare_text_row (?init (rows src ! k)))
        \<lparr>c_job_label := c_job_label ?M, c_prob_job := c_prob_job ?M\<rparr>"
    proof (cases old1)
      case None
      then show ?thesis using k
        by (simp add: rows_merged_table rows_init_columns_plain [OF nlab nprob] prepare_text_row_def)
    next
      case (Some o1)
      then show ?thesis using k
        by (simp add: rows_merged_table rows_merge_old rows_init_columns_plain [OF nlab nprob]
            prepare_text_row_def fill_from_old_def split: option.splits)
    qed
    have "rows ?T ! k = ?M
        \<lparr>c_job_label := c_job_label (rows ?T ! k), c_prob_job := c_prob_job (rows ?T ! k)\<rparr>"
      using predict_new_shape [OF p1, of k] k len1 by simp
    also have "\<dots> = (prepare_text_row (?init (rows src ! k)))
        \<lparr>c_job_label := c_job_label (rows ?T ! k), c_prob_job := c_prob_job (rows ?T ! k)\<rparr>"
      by (subst m1) simp
    finally have shape: "rows ?T ! k = (prepare_text_row (?init (rows src ! k)))
        \<lparr>c_job_label := c_job_label (rows ?T ! k), c_prob_job := c_prob_job (rows ?T ! k)\<rparr>" .
    have "rows (merged_table src (Some ?T)) ! k =
        prepare_text_row (fill_from_old True True (?init (rows src ! k)) (rows ?T ! k))"
      using k f by (simp add: rows2)
    also have "\<dots> = (prepare_text_row (?init (rows src ! k)))
        \<lparr>c_job_label := c_job_label (rows ?T ! k), c_prob_job := c_prob_job (rows ?T ! k)\<rparr>"
      by (simp add: fill_from_old_def fillna_def prepare_text_row_def)
    also have "\<dots> = rows ?T ! k" using shape by simp
    finally show "rows (merged_table src (Some ?T)) ! k = rows ?T ! k" .
  qed
  moreover have "columns (merged_table src (Some ?T)) = columns ?T"
    unfolding colsT columns_merged_table ..
  ultimately show ?thesis by simp
qed

lemma classify_rerun:
  assumes c1: "classify env = Inr res1" and src: "excel_path env = Content src"
    and idc: "''id'' \<in> set (columns src)"
    and nlab: "''job_label'' \<notin> set (columns src)"
    and nprob: "''prob_job'' \<notin> set (columns src)"
    and dist: "distinct (map c_id (rows src))"
  shows "classify (run_classify env) = Inr \<lparr>table = table res1, model_inputs = []\<rparr>"
proof -
  from classify_cases [OF c1 src] obtain old1 where
    p1: "predict_new (model_path env) (merged_table src old1) = Inr res1" by blast
  have env': "run_classify env = env\<lparr>output_path := Content (table res1)\<rparr>"
    using c1 by (simp add: run_classify_def)
  have m: "exists_file (model_path env)" and req: "set [''subject'', ''body''] \<subseteq> set (columns src)"
    using c1 src by (auto simp: classify_def load_excel_safely_def split: if_splits)
  have mt: "merged_table src (Some (table res1)) = table res1"
    by (rule rerun_merged_table [OF p1 idc nlab nprob dist])
  have none: "filter mask_new (rows (table res1)) = []"
    using predict_new_all [OF p1] by (simp add: filter_empty_conv)
  have "predict_new (model_path env) (table res1) = Inr \<lparr>table = table res1, model_inputs = []\<rparr>"
    using none by (simp add: predict_new_def)
  then show ?thesis
    unfolding env' using src m req mt
    by (simp add: classify_def load_excel_safely_def load_old_def exists_file_def)
qed

lemma classify_returns:
  assumes "excel_path env = Content src"
    and "set [''subject'', ''body''] \<subseteq> set (columns src)"
    and "model_path env = Content m"
    and "output_path env \<noteq> Unreadable"
    and "\<forall>ts. length (predict m ts) = length ts \<and> length (predict_proba m ts) = length ts"
  shows "\<exists>res. classify env = Inr res"
proof -
  obtain old where lo: "load_old (output_path env) = Inr old"
    using assms(4)
    by (cases "output_path env") (simp_all add: load_old_def exists_file_def load_excel_safely_def)
  have "\<exists>res. predict_new (Content m) (merged_table src old) = Inr res"
    using assms(5) by (simp add: predict_new_def load_model_safely_def Let_def)
  then show ?thesis
    using assms(1,2,3) lo
    by (simp add: classify_def exists_file_def load_excel_safely_def)
qed

subsection \<open>Index stage\<close>

lemma batch_ids:
  "length ds = length ids \<Longrightarrow> length ms = length ids \<Longrightarrow> length vs = length ids \<Longrightarrow>
   map e_id (map (\<lambda>(i, d, m, v). \<lparr>e_id = i, e_document = d, e_metadata = m, e_embedding = v\<rparr>)
      (zip ids (zip ds (zip ms vs)))) = ids"
proof -
  assume a: "length ds = length ids" "length ms = length ids" "length vs = length ids"
  have "map e_id (map (\<lambda>(i, d, m, v). \<lparr>e_id = i, e_document = d, e_metadata = m, e_embedding = v\<rparr>)
      (zip ids (zip ds (zip ms vs)))) = map fst (zip ids (zip ds (zip ms vs)))"
    by (simp add: case_prod_unfold comp_def)
  also have "\<dots> = ids" using a by simp
  finally show ?thesis .
qed

lemma filter_new_ids:
  "set (map e_id (filter (\<lambda>e. e_id e \<notin> S) b)) = set (map e_id b) - S"
  by auto

lemma collection_add_keeps:
  assumes "collection_add ids ds ms vs store = Inr store'"
  shows "take (length store) store' = store"
  using assms by (auto simp: collection_add_def split: if_splits)

lemma collection_add_distinct:
  assumes "collection_add ids ds ms vs store = Inr store'" and "distinct (map e_id store)"
  shows "distinct (map e_id store')"
proof -
  let ?batch = "map (\<lambda>(i, d, m, v). \<lparr>e_id = i, e_document = d, e_metadata = m, e_embedding = v\<rparr>)
      (zip ids (zip ds (zip ms vs)))"
  from assms(1) have d: "distinct ids" and l: "length ds = length ids" "length ms = length ids"
      "length vs = length ids"
    and s: "store' = store @ filter (\<lambda>e. e_id e \<notin> set (map e_id store)) ?batch"
    by (auto simp: collection_add_def split: if_splits)
  have "distinct (map e_id ?batch)" using batch_ids [OF l] d by simp
  then have "distinct (map e_id (filter (\<lambda>e. e_id e \<notin> set (map e_id store)) ?batch))"
    by (rule distinct_map_filter)
  moreover have "set (map e_id store) \<inter>
      set (map e_id (filter (\<lambda>e. e_id e \<notin> set (map e_id store)) ?batch)) = {}"
    unfolding filter_new_ids by blast
  ultimately show ?thesis using assms(2) unfolding s by simp
qed

lemma collection_add_ids:
  assumes "collection_add ids ds ms vs store = Inr store'"
  shows "set (map e_id store') = set (map e_id store) \<union> set ids"
proof -
  let ?batch = "map (\<lambda>(i, d, m, v). \<lparr>e_id = i, e_document = d, e_metadata = m, e_embedding = v\<rparr>)
      (zip ids (zip ds (zip ms vs)))"
  from assms(1) have l: "length ds = length ids" "length ms = length ids"
      "length vs = length ids"
    and s: "store' = store @ filter (\<lambda>e. e_id e \<notin> set (map e_id store)) ?batch"
    by (auto simp: collection_add_def split: if_splits)
  have "set (map e_id store') = set (map e_id store) \<union> (set (map e_id ?batch) - set (map e_id store))"
    unfolding s map_append set_append filter_new_ids ..
  then show ?thesis unfolding batch_ids [OF l] by auto
qed

lemma incremental_add_keeps:
  "take (length store) (new_store (incremental_add encode df store)) = store"
  by (auto simp: incremental_add_def Let_def split: sum.splits dest: collection_add_keeps)

lemma incremental_add_distinct:
  "distinct (map e_id store) \<Longrightarrow> distinct (map e_id (new_store (incremental_add encode df store)))"
  by (auto simp: incremental_add_def Let_def split: sum.splits dest: collection_add_distinct)

lemma sync_runs_distinct:
  "distinct (map e_id store) \<Longrightarrow> distinct (map e_id (sync_runs encode dfs store))"
  by (induction dfs arbitrary: store) (simp_all add: incremental_add_distinct)

lemma incremental_add_calls:
  "embed_calls (incremental_add encode df store) = [] \<or>
   embed_calls (incremental_add encode df store) =
     [map (\<lambda>(d, r). astype_str (p_mailcontent r)) (df_new df store)]"
  by (auto simp: incremental_add_def Let_def split: sum.splits)

lemma existing_ids_all: "length store \<le> 1000000 \<Longrightarrow> existing_ids store = set (map e_id store)"
  by (simp add: existing_ids_def collection_get_def)

lemma existing_ids_subset: "existing_ids store \<subseteq> set (map e_id store)"
  unfolding existing_ids_def collection_get_def
  using set_take_subset [of 1000000 store] by auto

lemma df_new_empty_iff:
  "df_new df store = [] \<longleftrightarrow> fst ` set (with_doc_ids (p_rows df)) \<subseteq> existing_ids store"
  by (auto simp: df_new_def filter_empty_conv)

lemma df_new_ids:
  "set (map fst (df_new df store)) = fst ` set (with_doc_ids (p_rows df)) - existing_ids store"
  by (auto simp: df_new_def)

lemma incremental_add_rerun:
  assumes ok: "raised (incremental_add encode df store) = None"
    and small: "length (new_store (incremental_add encode df store)) \<le> 1000000"
  shows "incremental_add encode df (new_store (incremental_add encode df store)) =
         \<lparr>new_store = new_store (incremental_add encode df store), embed_calls = [], raised = None\<rparr>"
proof -
  let ?r = "incremental_add encode df store"
  have cols: "set required_cols \<subseteq> set (p_columns df)"
    using ok by (auto simp: incremental_add_def split: if_splits)
  have all: "fst ` set (with_doc_ids (p_rows df)) \<subseteq> set (map e_id (new_store ?r))"
  proof (cases "df_new df store = []")
    case True
    then have "new_store ?r = store" using cols by (simp add: incremental_add_def)
    moreover have "fst ` set (with_doc_ids (p_rows df)) \<subseteq> existing_ids store"
      using True by (simp add: df_new_empty_iff)
    ultimately show ?thesis using existing_ids_subset [of store] by auto
  next
    case False
    let ?ids = "map fst (df_new df store)"
    let ?docs = "map (\<lambda>(d, r). astype_str (p_mailcontent r)) (df_new df store)"
    let ?metas = "map (\<lambda>(d, r). metadata_of r) (df_new df store)"
    from ok False cols obtain store' where
      add: "collection_add ?ids ?docs ?metas (encode ?docs) store = Inr store'"
      and ns: "new_store ?r = store'"
      by (auto simp: incremental_add_def Let_def split: sum.splits)
    have "set (map e_id store') = set (map e_id store) \<union> set ?ids"
      by (rule collection_add_ids [OF add])
    then show ?thesis
      unfolding ns df_new_ids using existing_ids_subset [of store] by auto
  qed
  have "existing_ids (new_store ?r) = set (map e_id (new_store ?r))"
    by (rule existing_ids_all [OF small])
  with all have "df_new df (new_store ?r) = []" by (simp add: df_new_empty_iff)
  then show ?thesis using cols by (simp add: incremental_add_def)
qed

subsection \<open>The example inputs, evaluated\<close>

lemma demo_classify: "classify demo_env = Inr demo_res"
  by code_simp

lemma demo_classify_stale: "classify demo_env_stale = Inr demo_res_stale"
  by code_simp

lemma str_nat_1: "str_nat (Suc 0) = ''1''" by code_simp

lemma demo_existing_ids: "existing_ids demo_store = {''link1''}"
  by (simp add: existing_ids_def collection_get_def demo_store_def)

lemma demo_doc_ids:
  "with_doc_ids (p_rows demo_parsed) = [(''link1'', demo_row1), (''row_1'', demo_row2)]"
  by (simp add: with_doc_ids_def demo_parsed_def doc_id_def mail_link_def str_nat_1
      demo_row1_def demo_row2_def del: str_nat.simps)

lemma demo_df_new: "df_new demo_parsed demo_store = [(''row_1'', demo_row2)]"
  by (simp add: df_new_def demo_doc_ids demo_existing_ids)

lemma demo_sync: "incremental_add demo_encode demo_parsed demo_store =
   \<lparr>new_store = demo_store @
      [\<lparr>e_id = ''row_1'', e_document = ''Interview invitation'',
        e_metadata = [(''company_name'', ''Bolt''), (''position_applied'', ''nan''),
                      (''application_date'', ''nan''), (''status'', ''interview''),
                      (''mail_link'', [])],
        e_embedding = [20]\<rparr>],
    embed_calls = [[''Interview invitation'']], raised = None\<rparr>"
proof -
  have cols: "set required_cols \<subseteq> set (p_columns demo_parsed)"
    by (simp add: demo_parsed_def)
  have ids: "''row_1'' \<notin> e_id ` set demo_store" by (simp add: demo_store_def)
  show ?thesis
    using cols ids
    by (simp add: incremental_add_def demo_df_new Let_def collection_add_def demo_encode_def
        astype_str_def metadata_of_def mail_link_def demo_row2_def)
qed

section \<open>Classification stage: the merge\<close>

text \<open>
  Claim C1. A run of \<open>classify\<close> on a raw store with an \<open>id\<close> column and no
  \<open>job_label\<close> / \<open>prob_job\<close> columns of its own (the columns the fetch stage writes),
  with a previous classified store that has an \<open>id\<close> and a \<open>job_label\<close> column: for
  the row at any position \<open>k\<close> of the raw store whose id the previous store knows
  (\<open>prev\<close> is its first row for that id) with a label \<open>v\<close>, the output row at \<open>k\<close>
  carries that id, the label \<open>v\<close> and the probability of \<open>prev\<close> (none when the
  previous store has no \<open>prob_job\<close> column); the row is not in the mask after the merge,
  and every batch handed to the model is the texts of exactly the rows in the mask.
\<close>

theorem classify_keeps_previous_label:
  assumes run: "classify env = Inr res"
    and src: "excel_path env = Content src" and old: "output_path env = Content old"
    and idc: "''id'' \<in> set (columns src)" and ido: "''id'' \<in> set (columns old)"
    and nlab: "''job_label'' \<notin> set (columns src)" and nprob: "''prob_job'' \<notin> set (columns src)"
    and labo: "''job_label'' \<in> set (columns old)"
    and k: "k < length (rows src)"
    and found: "find (\<lambda>r. c_id r = c_id (rows src ! k)) (rows old) = Some prev"
    and lab: "c_job_label prev = Some v"
  shows "c_id (rows (table res) ! k) = c_id prev
       \<and> c_job_label (rows (table res) ! k) = Some v
       \<and> c_prob_job (rows (table res) ! k) =
           (if ''prob_job'' \<in> set (columns old) then c_prob_job prev else None)
       \<and> \<not> mask_new (rows (merged_table src (Some old)) ! k)
       \<and> (\<forall>batch \<in> set (model_inputs res).
            batch = map (\<lambda>r. str_or_empty (c_text r))
                      (filter mask_new (rows (merged_table src (Some old)))))"
proof -
  let ?df = "merged_table src (Some old)"
  from classify_cases [OF run src] obtain old' where
    lo: "load_old (output_path env) = Inr old'"
    and p: "predict_new (model_path env) (merged_table src old') = Inr res" by blast
  from lo old have "old' = Some old"
    by (simp add: load_old_def exists_file_def load_excel_safely_def)
  with p have p: "predict_new (model_path env) ?df = Inr res" by simp
  have len: "length (rows ?df) = length (rows src)"
    using merged_table_ids [of src "Some old"] by (metis length_map)
  have rowk: "rows ?df ! k =
      prepare_text_row
        (fill_from_old True (''prob_job'' \<in> set (columns old))
           ((rows src ! k)\<lparr>c_job_label := None, c_prob_job := None\<rparr>) prev)"
    using k idc ido labo found
    by (simp add: rows_merged_table rows_merge_old rows_init_columns_plain [OF nlab nprob])
  have mlab: "c_job_label (rows ?df ! k) = Some v"
    and mprob: "c_prob_job (rows ?df ! k) =
        (if ''prob_job'' \<in> set (columns old) then c_prob_job prev else None)"
    unfolding rowk using lab by (simp_all add: prepare_text_row_def fill_from_old_def fillna_def)
  have nomask: "\<not> mask_new (rows ?df ! k)" using mlab by (simp add: mask_new_def)
  have same: "rows (table res) ! k = rows ?df ! k"
    using predict_new_cases [OF p] assign_new_keeps [of k "rows ?df"] k len nomask by auto
  have idk: "c_id (rows (table res) ! k) = c_id prev"
  proof -
    have "c_id (rows ?df ! k) = c_id (rows src ! k)"
      unfolding rowk by (simp add: prepare_text_row_def fill_from_old_def)
    moreover have "c_id prev = c_id (rows src ! k)"
      using found by (auto simp: find_Some_iff)
    ultimately show ?thesis using same by simp
  qed
  have batches: "\<forall>batch \<in> set (model_inputs res).
      batch = map (\<lambda>r. str_or_empty (c_text r)) (filter mask_new (rows ?df))"
    using predict_new_cases [OF p] by auto
  show ?thesis using idk same mlab mprob nomask batches by simp
qed

text \<open>
  Claim C1, at the example: mail \<open>a\<close> was labelled 1 with probability 9/10 before, the
  model would now say 0; the run keeps 1 and 9/10 and sends only the text of mail \<open>b\<close>.
\<close>

theorem classify_keeps_previous_label_witness:
  "classify demo_env = Inr demo_res
   \<and> c_job_label (rows (table demo_res) ! 0) = Some 1
   \<and> c_prob_job (rows (table demo_res) ! 0) = Some (9 / 10)
   \<and> predict demo_model [''Thank you for applying We got it''] = [0]
   \<and> model_inputs demo_res = [[''Sale ''], [''Sale '']]"
proof -
  have run: "classify demo_env = Inr demo_res" by (rule demo_classify)
  have src: "excel_path demo_env = Content demo_src"
    and old: "output_path demo_env = Content demo_old"
    by (simp_all add: demo_env_def)
  have idc: "''id'' \<in> set (columns demo_src)" and ido: "''id'' \<in> set (columns demo_old)"
    and nlab: "''job_label'' \<notin> set (columns demo_src)"
    and nprob: "''prob_job'' \<notin> set (columns demo_src)"
    and labo: "''job_label'' \<in> set (columns demo_old)"
    and k: "0 < length (rows demo_src)"
    by (simp_all add: demo_src_def demo_old_def)
  have found: "find (\<lambda>r. c_id r = c_id (rows demo_src ! 0)) (rows demo_old) = Some demo_prev"
    by (simp add: demo_src_def demo_old_def demo_prev_def)
  have lab: "c_job_label demo_prev = Some 1" by (simp add: demo_prev_def)
  from classify_keeps_previous_label
    [OF run src old idc ido nlab nprob labo k found lab]
  show ?thesis using run by (simp add: demo_prev_def demo_res_def demo_model_def demo_old_def)
qed

text \<open>
  Claim C10. When \<open>classify\<close> returns, the run replaces the classified file by the
  table returned, and that table has one row per row of the raw store, in the same order,
  with the same id and the same subject and body (an empty cell as the empty string); so
  an id that is not in the raw store, such as one known only to the previous classified
  store, is in no row of the persisted store.
\<close>

theorem classify_one_row_per_source_row:
  assumes "classify env = Inr res" and "excel_path env = Content src"
  shows "output_path (run_classify env) = Content (table res)
       \<and> length (rows (table res)) = length (rows src)
       \<and> map c_id (rows (table res)) = map c_id (rows src)
       \<and> map c_subject (rows (table res)) = map (\<lambda>r. Some (str_or_empty (c_subject r))) (rows src)
       \<and> map c_body (rows (table res)) = map (\<lambda>r. Some (str_or_empty (c_body r))) (rows src)
       \<and> (\<forall>i. i \<notin> set (map c_id (rows src)) \<longrightarrow> i \<notin> set (map c_id (rows (table res))))"
proof -
  from classify_cases [OF assms] obtain old where
    p: "predict_new (model_path env) (merged_table src old) = Inr res" by blast
  have ids: "map c_id (rows (table res)) = map c_id (rows src)"
    using predict_new_ids [OF p] merged_table_ids by simp
  have len: "length (rows (table res)) = length (rows src)"
    using ids by (metis length_map)
  have subj: "map c_subject (rows (table res)) =
      map (\<lambda>r. Some (str_or_empty (c_subject r))) (rows src)"
    using predict_new_subject [OF p] merged_table_subject by (simp add: comp_def)
  have bod: "map c_body (rows (table res)) = map (\<lambda>r. Some (str_or_empty (c_body r))) (rows src)"
    using predict_new_body [OF p] merged_table_body by (simp add: comp_def)
  have saved: "output_path (run_classify env) = Content (table res)"
    using assms(1) by (simp add: run_classify_def)
  show ?thesis using saved ids len subj bod by simp
qed

text \<open>
  Claim C10, at the example: the previous store knows mail \<open>z\<close>, the raw store holds
  \<open>a\<close> and \<open>b\<close>; the file the run leaves has the rows \<open>a\<close> and \<open>b\<close> and no
  row \<open>z\<close>.
\<close>

theorem classify_one_row_per_source_row_witness:
  "classify demo_env_stale = Inr demo_res_stale
   \<and> output_path demo_env_stale = Content demo_old_stale
   \<and> map c_id (rows demo_old_stale) = [''z'']
   \<and> output_path (run_classify demo_env_stale) = Content (table demo_res_stale)
   \<and> map c_id (rows (table demo_res_stale)) = [''a'', ''b'']
   \<and> ''z'' \<notin> set (map c_id (rows (table demo_res_stale)))"
proof -
  have run: "classify demo_env_stale = Inr demo_res_stale" by (rule demo_classify_stale)
  have src: "excel_path demo_env_stale = Content demo_src" by (simp add: demo_env_stale_def)
  have z: "''z'' \<notin> set (map c_id (rows demo_src))" by (simp add: demo_src_def)
  from classify_one_row_per_source_row [OF run src] z
  show ?thesis using run by (simp add: demo_src_def demo_old_stale_def demo_env_stale_def)
qed




section \<open>Hybrid decision layer\<close>

text \<open>
  Claim C2, as stated, fails: a mail from a sender of the hard-negative list
  (\<open>NEGATIVE_DOMAINS\<close>, used only to label training data), without any strong signal,
  with probability 9/10 and threshold 1/5, is accepted.
\<close>

theorem hard_negative_sender_accepted:
  "is_negative_sender (sender chase_mail)
   \<and> \<not> has_strong_job_signal (subject chase_mail) (body chase_mail) (sender chase_mail)
   \<and> accepted (1 / 5) chase_mail (9 / 10)
   \<and> map r_email_id (process_rows (1 / 5) [(chase_mail, 9 / 10)]) = [''m1'']"
  by code_simp

text \<open>
  Claim C2, amended. The hybrid layer has no hard-negative sender rule: whatever the
  sender, an item is accepted exactly when it has a strong job signal or its
  probability is at least the threshold, and the rows written are those of exactly
  these items, in order. So an item from a hard-negative sender is rejected only when it
  has no strong signal and its probability is below the threshold.
\<close>

theorem accepted_iff_signal_or_score:
  "(accepted thr e p \<longleftrightarrow> has_strong_job_signal (subject e) (body e) (sender e) \<or> thr \<le> p)
   \<and> map r_email_id (process_rows thr eps) =
       map (email_id \<circ> fst)
         (filter (\<lambda>(e, p). has_strong_job_signal (subject e) (body e) (sender e) \<or> thr \<le> p) eps)"
proof -
  have "map r_email_id (process_rows thr eps) =
       map (email_id \<circ> fst)
         (filter (\<lambda>(e, p). has_strong_job_signal (subject e) (body e) (sender e) \<or> thr \<le> p) eps)"
    by (induction thr eps rule: process_rows.induct)
      (auto simp: skipped_def make_row_def Let_def)
  then show ?thesis by (simp add: accepted_iff)
qed

text \<open>
  Claim C2, amended, at the example: the same bank mail with probability 1/10 is
  rejected, with probability 9/10 it is accepted.
\<close>

theorem accepted_iff_signal_or_score_witness:
  "is_negative_sender (sender chase_mail)
   \<and> \<not> accepted (1 / 5) chase_mail (1 / 10)
   \<and> accepted (1 / 5) chase_mail (9 / 10)"
proof -
  have n: "is_negative_sender (sender chase_mail)" by code_simp
  have s: "\<not> has_strong_job_signal (subject chase_mail) (body chase_mail) (sender chase_mail)"
    by code_simp
  show ?thesis
    using n s accepted_iff_signal_or_score [of "1 / 5" chase_mail "1 / 10"]
      accepted_iff_signal_or_score [of "1 / 5" chase_mail "9 / 10"]
    by simp
qed

text \<open>
  Claim C8, as stated, fails: a mail whose body contains a phrase of the subject list
  (\<open>offer letter\<close>), from a sender that is no platform, with probability 1/20 and
  threshold 1/5, is rejected: the subject list is checked on the subject only.
\<close>

theorem body_only_subject_phrase_rejected:
  "any_in STRONG_SUBJECT_INFER (lower (body offer_mail))
   \<and> (1 / 20 :: real) < 1 / 5
   \<and> \<not> accepted (1 / 5) offer_mail (1 / 20)
   \<and> process_rows (1 / 5) [(offer_mail, 1 / 20)] = []"
  by code_simp

text \<open>
  Claim C8, amended. An item whose sender contains a domain of the platform list, or
  whose subject contains a phrase of the subject list, or whose subject or body contains
  a phrase of the body list, is accepted whatever its probability and the threshold are.
\<close>

theorem strong_signal_accepted_below_threshold:
  assumes "any_in JOB_DOMAINS_INFER (lower (sender e))
         \<or> any_in STRONG_SUBJECT_INFER (lower (subject e))
         \<or> any_in STRONG_BODY_INFER (lower (subject e))
         \<or> any_in STRONG_BODY_INFER (lower (body e))"
  shows "accepted thr e p \<and> process_rows thr [(e, p)] = [make_row e p]"
proof -
  have s: "has_strong_job_signal (subject e) (body e) (sender e)"
    using assms any_in_text [of STRONG_BODY_INFER "subject e" "body e" "'' [SEP] ''"]
    unfolding has_strong_job_signal_def Let_def by presburger
  then show ?thesis by (simp add: accepted_iff skipped_def)
qed

text \<open>
  Claim C8, amended, at the example: a mail from an applicant tracking system with
  probability 1/20 and threshold 1/5.
\<close>

theorem strong_signal_accepted_below_threshold_witness:
  "any_in JOB_DOMAINS_INFER (lower (sender workday_mail))
   \<and> (1 / 20 :: real) < 1 / 5
   \<and> accepted (1 / 5) workday_mail (1 / 20)"
proof -
  have h: "any_in JOB_DOMAINS_INFER (lower (sender workday_mail))" by code_simp
  then show ?thesis
    using strong_signal_accepted_below_threshold [of workday_mail "1 / 5" "1 / 20"] by simp
qed

text \<open>
  Claim C7, as stated, fails: a text with opening phrases (\<open>job opening\<close>,
  \<open>we are hiring\<close>, of the \<open>STRONG_SUBJECT\<close> list behind \<open>JOB_OPENING\<close> in the
  rule-based agent) and none of the other phrases gets the status \<open>OTHER_JOB_EMAIL\<close>.
\<close>

theorem opening_text_gets_other_status:
  "any_in STRONG_SUBJECT (lower opening_text)
   \<and> \<not> any_in APPLICATION_CONFIRM_WORDS (lower opening_text)
   \<and> \<not> any_in INTERVIEW_WORDS (lower opening_text)
   \<and> \<not> any_in REJECTION_WORDS (lower opening_text)
   \<and> infer_job_status opening_text = ''OTHER_JOB_EMAIL''"
  by code_simp

text \<open>
  Claim C7, amended. The status is derived by first match in this order:
  application-confirmation phrases give \<open>APPLICATION_CONFIRMATION\<close>; else interview
  phrases give \<open>INTERVIEW_INVITE\<close>; else rejection phrases give \<open>REJECTION\<close>; else the
  status is \<open>OTHER_JOB_EMAIL\<close>. There is no opening step: \<open>JOB_OPENING\<close> is never the
  status. The status in the row of an accepted item is the one derived from its cleaned
  subject and body.
\<close>

theorem infer_job_status_first_match:
  "infer_job_status txt = first_match status_rules (lower txt) ''OTHER_JOB_EMAIL''
   \<and> infer_job_status txt \<noteq> ''JOB_OPENING''
   \<and> r_job_status (make_row e p) =
       infer_job_status (clean_text (subject e) @ '' [SEP] '' @ clean_text (body e))"
  by (simp add: infer_job_status_def first_match_def status_rules_def make_row_def Let_def)

text \<open>
  Claim C7, amended, at the example: a text with an application-confirmation phrase
  and a rejection phrase is an application confirmation.
\<close>

theorem infer_job_status_first_match_witness:
  "any_in APPLICATION_CONFIRM_WORDS (lower applied_text)
   \<and> any_in REJECTION_WORDS (lower applied_text)
   \<and> infer_job_status applied_text = ''APPLICATION_CONFIRMATION''"
proof -
  have a: "any_in APPLICATION_CONFIRM_WORDS (lower applied_text)" by code_simp
  have r: "any_in REJECTION_WORDS (lower applied_text)" by code_simp
  have "first_match status_rules (lower applied_text) ''OTHER_JOB_EMAIL''
      = ''APPLICATION_CONFIRMATION''"
    using a by (simp add: first_match_def status_rules_def)
  then show ?thesis using a r infer_job_status_first_match [of applied_text workday_mail 0] by simp
qed

section \<open>Fetch stage\<close>

text \<open>
  Claim C4. When the listing succeeds and the details of every listed id that is not
  in \<open>seen_ids\<close> can be fetched, \<open>fetch_new_as_dataframe\<close> returns rows whose ids are
  the listed ids not in \<open>seen_ids\<close>, in the order of the listing, and leaves \<open>seen_ids\<close>
  grown by them. The number of rows is the number of listed ids minus the number of
  listed ids in \<open>seen_ids\<close>, and so is the number of different ids. With \<open>seen_ids\<close>
  empty every listed id is returned; with an empty listing the result is empty, and no
  detail is fetched.
\<close>

theorem fetch_new_returns_unseen_ids:
  assumes listing: "list_ids svc query = Inr all_ids"
    and details: "\<forall>mid \<in> set all_ids - seen_ids. \<exists>d. get_message svc mid = Inr d"
  shows "\<exists>rows. fetch_new_as_dataframe base svc query seen_ids = (Inr rows, seen_ids \<union> set all_ids)
     \<and> map g_id rows = filter (\<lambda>mid. mid \<notin> seen_ids) all_ids
     \<and> length rows = length all_ids - length (filter (\<lambda>mid. mid \<in> seen_ids) all_ids)
     \<and> card (set (map g_id rows)) = card (set all_ids) - card (set all_ids \<inter> seen_ids)
     \<and> (seen_ids = {} \<longrightarrow> map g_id rows = all_ids)
     \<and> (all_ids = [] \<longrightarrow> rows = [])"
proof -
  define new_ids where "new_ids = filter (\<lambda>mid. mid \<notin> seen_ids) all_ids"
  have new_set: "set new_ids = set all_ids - seen_ids" by (auto simp: new_ids_def)
  have un: "seen_ids \<union> set new_ids = seen_ids \<union> set all_ids" using new_set by auto
  have "\<forall>mid\<in>set new_ids. \<exists>d. get_message svc mid = Inr d" using details new_set by simp
  from fetch_rows_ok [OF this, of base seen_ids] obtain rows where
    rows: "fetch_rows base svc new_ids seen_ids = (Inr rows, seen_ids \<union> set new_ids)"
      "map g_id rows = new_ids" by blast
  have res: "fetch_new_as_dataframe base svc query seen_ids = (Inr rows, seen_ids \<union> set all_ids)"
  proof (cases "new_ids = []")
    case True
    then have "rows = []" using rows(2) by simp
    moreover have "seen_ids \<union> set all_ids = seen_ids" using un True by simp
    ultimately show ?thesis
      using True listing by (simp add: fetch_new_as_dataframe_def new_ids_def)
  next
    case False
    then show ?thesis
      using listing rows(1) un by (simp add: fetch_new_as_dataframe_def new_ids_def Let_def)
  qed
  have len: "length rows = length all_ids - length (filter (\<lambda>mid. mid \<in> seen_ids) all_ids)"
  proof -
    have "length rows = length new_ids" using rows(2) by (metis length_map)
    then show ?thesis unfolding new_ids_def by (simp add: length_filter_not)
  qed
  have crd: "card (set (map g_id rows)) = card (set all_ids) - card (set all_ids \<inter> seen_ids)"
    unfolding rows(2) new_set by (rule card_Diff_subset_Int) simp
  have e1: "seen_ids = {} \<longrightarrow> map g_id rows = all_ids"
    using rows(2) by (simp add: new_ids_def)
  have e2: "all_ids = [] \<longrightarrow> rows = []"
    using rows(2) by (auto simp: new_ids_def)
  show ?thesis
    by (rule exI [of _ rows]) (use res rows(2) len crd e1 e2 in \<open>simp only: new_ids_def\<close>)
qed

text \<open>
  Claim C4, at the example: the mailbox lists \<open>a\<close>, \<open>b\<close>, \<open>c\<close>; \<open>b\<close> has been seen
  (and could not be fetched again); the rows \<open>a\<close> and \<open>c\<close> are returned.
\<close>

theorem fetch_new_returns_unseen_ids_witness:
  "map g_id (projr (fst (fetch_new_as_dataframe ''https://mail.google.com/mail/u/0/#all/''
       demo_mailbox ''after:2025/12/05'' {''b''}))) = [''a'', ''c'']
   \<and> snd (fetch_new_as_dataframe ''https://mail.google.com/mail/u/0/#all/''
       demo_mailbox ''after:2025/12/05'' {''b''}) = {''a'', ''b'', ''c''}"
proof -
  have l: "list_ids demo_mailbox ''after:2025/12/05'' = Inr [''a'', ''b'', ''c'']"
    by (simp add: list_ids_def demo_mailbox_def)
  have d: "\<forall>mid \<in> set [''a'', ''b'', ''c''] - {''b''}. \<exists>d. get_message demo_mailbox mid = Inr d"
    by (simp add: demo_mailbox_def)
  from fetch_new_returns_unseen_ids
    [OF l d, of "''https://mail.google.com/mail/u/0/#all/''"]
  show ?thesis by force
qed

section \<open>Index stage\<close>

text \<open>
  Claim C3. From a collection without repeated ids, any number of runs of the
  synchronization leaves a collection without repeated ids. In one run the entries
  already there stay where and as they are; every batch handed to the embedding model
  is the documents of \<open>df_new\<close>, and a row whose \<open>doc_id\<close> is among the ids the
  collection returned is not in \<open>df_new\<close>; with \<open>df_new\<close> empty nothing is inserted and
  the embedding model is not called. The ids the collection returns are all its ids as
  long as it holds at most 1000000 entries (the limit of the \<open>get\<close> call).
\<close>

theorem index_sync_one_entry_per_doc_id:
  assumes "distinct (map e_id store)"
  shows "distinct (map e_id (sync_runs encode dfs store))
    \<and> take (length store) (new_store (incremental_add encode df store)) = store
    \<and> (\<forall>batch \<in> set (embed_calls (incremental_add encode df store)).
          batch = map (\<lambda>(d, r). astype_str (p_mailcontent r)) (df_new df store))
    \<and> (\<forall>(d, r) \<in> set (with_doc_ids (p_rows df)).
          d \<in> existing_ids store \<longrightarrow> (d, r) \<notin> set (df_new df store))
    \<and> (df_new df store = [] \<longrightarrow>
          new_store (incremental_add encode df store) = store \<and>
          embed_calls (incremental_add encode df store) = [])
    \<and> (length store \<le> 1000000 \<longrightarrow> existing_ids store = set (map e_id store))"
proof -
  have a: "distinct (map e_id (sync_runs encode dfs store))"
    using assms by (rule sync_runs_distinct)
  have b: "\<forall>batch \<in> set (embed_calls (incremental_add encode df store)).
          batch = map (\<lambda>(d, r). astype_str (p_mailcontent r)) (df_new df store)"
    using incremental_add_calls [of encode df store] by auto
  have c: "\<forall>(d, r) \<in> set (with_doc_ids (p_rows df)).
          d \<in> existing_ids store \<longrightarrow> (d, r) \<notin> set (df_new df store)"
    by (auto simp: df_new_def)
  have d: "df_new df store = [] \<longrightarrow>
          new_store (incremental_add encode df store) = store \<and>
          embed_calls (incremental_add encode df store) = []"
    by (simp add: incremental_add_def)
  show ?thesis using a b c d incremental_add_keeps existing_ids_all by blast
qed

text \<open>
  Claim C3, at the example: the collection holds \<open>link1\<close>; the table has the row of
  \<open>link1\<close> and a row without a link. Only the second is embedded, under the id
  \<open>row_1\<close>, and two runs leave two entries.
\<close>

theorem index_sync_one_entry_per_doc_id_witness:
  "distinct (map e_id demo_store)
   \<and> distinct (map e_id (sync_runs demo_encode [demo_parsed, demo_parsed] demo_store))
   \<and> take (length demo_store) (new_store (incremental_add demo_encode demo_parsed demo_store))
       = demo_store
   \<and> embed_calls (incremental_add demo_encode demo_parsed demo_store) = [[''Interview invitation'']]
   \<and> (''link1'', demo_row1) \<notin> set (df_new demo_parsed demo_store)"
proof -
  have h: "distinct (map e_id demo_store)" by (simp add: demo_store_def)
  have m: "(''link1'', demo_row1) \<in> set (with_doc_ids (p_rows demo_parsed))"
    by (simp add: demo_doc_ids)
  have x: "''link1'' \<in> existing_ids demo_store" by (simp add: demo_existing_ids)
  from index_sync_one_entry_per_doc_id
    [OF h, of demo_encode "[demo_parsed, demo_parsed]" demo_parsed]
  show ?thesis using h m x by (auto simp: demo_sync)
qed

section \<open>A second run\<close>

text \<open>
  Claim C6. The raw store has the columns of the fetch stage (an \<open>id\<close> column, no
  \<open>job_label\<close> or \<open>prob_job\<close> column) and no id twice; the first classification run and
  the first index run completed, and the collection holds at most 1000000 entries. Then
  a second classification run on the same raw store returns the table of the first run
  without handing anything to the model, and leaves the classified file as it is; and a
  second index run on the same parsed table leaves the collection as it is and does
  not call the embedding model.
\<close>

theorem second_run_is_noop:
  assumes c1: "classify env = Inr res1" and src: "excel_path env = Content src"
    and idc: "''id'' \<in> set (columns src)"
    and nlab: "''job_label'' \<notin> set (columns src)"
    and nprob: "''prob_job'' \<notin> set (columns src)"
    and dist: "distinct (map c_id (rows src))"
    and ok: "raised (incremental_add encode df store) = None"
    and small: "length (new_store (incremental_add encode df store)) \<le> 1000000"
  shows "classify (run_classify env) = Inr \<lparr>table = table res1, model_inputs = []\<rparr>
       \<and> run_classify (run_classify env) = run_classify env
       \<and> incremental_add encode df (new_store (incremental_add encode df store)) =
           \<lparr>new_store = new_store (incremental_add encode df store), embed_calls = [],
            raised = None\<rparr>"
proof -
  have a: "classify (run_classify env) = Inr \<lparr>table = table res1, model_inputs = []\<rparr>"
    by (rule classify_rerun [OF c1 src idc nlab nprob dist])
  have e: "run_classify env = env\<lparr>output_path := Content (table res1)\<rparr>"
    using c1 by (simp add: run_classify_def)
  have b: "run_classify (run_classify env) = run_classify env"
    using a by (subst run_classify_def) (simp add: e)
  show ?thesis using a b incremental_add_rerun [OF ok small] by simp
qed

text \<open>Claim C6, at the example environment, parsed table and collection.\<close>

theorem second_run_is_noop_witness:
  "classify demo_env = Inr demo_res
   \<and> classify (run_classify demo_env) = Inr \<lparr>table = table demo_res, model_inputs = []\<rparr>
   \<and> raised (incremental_add demo_encode demo_parsed demo_store) = None
   \<and> embed_calls (incremental_add demo_encode demo_parsed
        (new_store (incremental_add demo_encode demo_parsed demo_store))) = []
   \<and> new_store (incremental_add demo_encode demo_parsed
        (new_store (incremental_add demo_encode demo_parsed demo_store)))
       = new_store (incremental_add demo_encode demo_parsed demo_store)"
proof -
  have run: "classify demo_env = Inr demo_res" by (rule demo_classify)
  have src: "excel_path demo_env = Content demo_src" by (simp add: demo_env_def)
  have idc: "''id'' \<in> set (columns demo_src)"
    and nlab: "''job_label'' \<notin> set (columns demo_src)"
    and nprob: "''prob_job'' \<notin> set (columns demo_src)"
    and dist: "distinct (map c_id (rows demo_src))"
    by (simp_all add: demo_src_def)
  have ok: "raised (incremental_add demo_encode demo_parsed demo_store) = None"
    by (simp add: demo_sync)
  have small: "length (new_store (incremental_add demo_encode demo_parsed demo_store)) \<le> 1000000"
    unfolding demo_sync by (simp add: demo_store_def)
  from second_run_is_noop [OF run src idc nlab nprob dist ok small]
  show ?thesis using run ok by simp
qed

section \<open>Query layer\<close>

text \<open>
  Claim C9. With no retrieved documents \<open>llm_node\<close> sets the fixed answer and sends
  no prompt to the generation model; a question for which the retriever returns no
  document is answered by \<open>ask\<close> with the fixed answer, without any prompt sent.
\<close>

theorem no_documents_fixed_answer:
  "(retrieved_docs state = [] \<longrightarrow>
      llm_node llm state = (state\<lparr>answer := no_match_answer\<rparr>, []))
   \<and> (retriever q = [] \<longrightarrow> ask retriever llm q = (no_match_answer, []))"
  by (simp add: llm_node_def ask_def retrieve_node_def)

text \<open>Claim C9, at the example state, with a generation model that would answer.\<close>

theorem no_documents_fixed_answer_witness:
  "retrieved_docs demo_state = []
   \<and> llm_node (\<lambda>prompt. Str ''You applied.'') demo_state
       = (demo_state\<lparr>answer := no_match_answer\<rparr>, [])
   \<and> ask (\<lambda>q. []) (\<lambda>prompt. Str ''You applied.'') ''Any news from Acme?''
       = (no_match_answer, [])"
proof -
  have h: "retrieved_docs demo_state = []" by (simp add: demo_state_def)
  show ?thesis
    using h no_documents_fixed_answer
      [of demo_state "\<lambda>prompt. Str ''You applied.''" "\<lambda>q. []" "''Any news from Acme?''"]
    by simp
qed

end
